theory Spec2Isabelle
  imports Main
begin

section \<open>JavaScript values of a document\<close>

text \<open>
  The after-read pipeline of \<^verbatim>\<open>packages/payload/src/fields/hooks/afterRead/promise.ts\<close>
  walks JSON-like documents. A document value is a tree: \<open>undefined\<close>, \<open>null\<close>, a
  boolean, a number, a string, an array, or an object whose own properties are kept in
  insertion order. Numbers are only carried around and tested for zero, so they are
  integers here. Properties inherited from a prototype are not part of a value.
\<close>

datatype jsvalue =
    JUndefined
  | JNull
  | JBool bool
  | JNum int
  | JStr string
  | JArr "jsvalue list"
  | JObj "(string \<times> jsvalue) list"

text \<open>
  What the code can raise: the two configuration errors of a rich-text field, and the
  \<open>TypeError\<close> of the language (a property of \<open>null\<close> or \<open>undefined\<close>, a write to a
  primitive in strict mode). \<open>OutsideModel\<close> marks the operations on an array whose
  result a list cannot hold: a write that creates a property that is not an index, and a
  write or a delete that leaves a hole.
\<close>

datatype error = MissingEditorProp | UnsanitizedEditor | TypeError | OutsideModel

fun typeof :: "jsvalue \<Rightarrow> string" where
  "typeof JUndefined = ''undefined''"
| "typeof JNull = ''object''"
| "typeof (JBool b) = ''boolean''"
| "typeof (JNum n) = ''number''"
| "typeof (JStr s) = ''string''"
| "typeof (JArr xs) = ''object''"
| "typeof (JObj ps) = ''object''"

fun truthy :: "jsvalue \<Rightarrow> bool" where
  "truthy JUndefined = False"
| "truthy JNull = False"
| "truthy (JBool b) = b"
| "truthy (JNum n) = (n \<noteq> 0)"
| "truthy (JStr s) = (s \<noteq> [])"
| "truthy (JArr xs) = True"
| "truthy (JObj ps) = True"

fun isArray :: "jsvalue \<Rightarrow> bool" where
  "isArray (JArr xs) = True"
| "isArray v = False"

definition nullish :: "jsvalue \<Rightarrow> bool" where
  "nullish v = (v = JUndefined \<or> v = JNull)"

subsection \<open>Property keys that are array indices\<close>

definition digit_of :: "char \<Rightarrow> nat option" where
  "digit_of c =
     (let n = (of_char c :: nat) in if 48 \<le> n \<and> n \<le> 57 then Some (n - 48) else None)"

fun digits_value :: "nat \<Rightarrow> string \<Rightarrow> nat option" where
  "digits_value acc [] = Some acc"
| "digits_value acc (c # cs) =
     (case digit_of c of None \<Rightarrow> None | Some d \<Rightarrow> digits_value (10 * acc + d) cs)"

text \<open>A key is an index when it is the canonical decimal form of a natural number.\<close>

definition canonical_index :: "string \<Rightarrow> nat option" where
  "canonical_index k =
     (if k = [] then None
      else if hd k = CHR ''0'' \<and> tl k \<noteq> [] then None
      else digits_value 0 k)"

subsection \<open>Reading, writing and deleting a property\<close>

text \<open>\<open>v[k]\<close> for a value that is neither \<open>null\<close> nor \<open>undefined\<close>.\<close>

fun prop_of :: "jsvalue \<Rightarrow> string \<Rightarrow> jsvalue" where
  "prop_of (JObj ps) k = (case map_of ps k of None \<Rightarrow> JUndefined | Some v \<Rightarrow> v)"
| "prop_of (JArr xs) k =
     (if k = ''length'' then JNum (int (length xs))
      else case canonical_index k of
             None \<Rightarrow> JUndefined
           | Some i \<Rightarrow> if i < length xs then xs ! i else JUndefined)"
| "prop_of (JStr s) k =
     (if k = ''length'' then JNum (int (length s))
      else case canonical_index k of
             None \<Rightarrow> JUndefined
           | Some i \<Rightarrow> if i < length s then JStr [s ! i] else JUndefined)"
| "prop_of v k = JUndefined"

text \<open>\<open>c[k]\<close>: a \<open>TypeError\<close> on \<open>null\<close> and \<open>undefined\<close>.\<close>

definition get_prop :: "jsvalue \<Rightarrow> string \<Rightarrow> error + jsvalue" where
  "get_prop c k = (if nullish c then Inl TypeError else Inr (prop_of c k))"

text \<open>\<open>v?.k\<close>: \<open>undefined\<close> on \<open>null\<close> and \<open>undefined\<close>.\<close>

definition opt_prop :: "jsvalue \<Rightarrow> string \<Rightarrow> jsvalue" where
  "opt_prop v k = (if nullish v then JUndefined else prop_of v k)"

fun update_entry :: "string \<Rightarrow> jsvalue \<Rightarrow> (string \<times> jsvalue) list \<Rightarrow> (string \<times> jsvalue) list" where
  "update_entry k v [] = [(k, v)]"
| "update_entry k v (p # ps) = (if fst p = k then (k, v) # ps else p # update_entry k v ps)"

text \<open>
  \<open>c[k] = v\<close> in strict mode (the file is an ES module). An object keeps the position of
  an existing key and appends a new one; a primitive refuses the write.
\<close>

fun set_prop :: "jsvalue \<Rightarrow> string \<Rightarrow> jsvalue \<Rightarrow> error + jsvalue" where
  "set_prop (JObj ps) k v = Inr (JObj (update_entry k v ps))"
| "set_prop (JArr xs) k v =
     (case canonical_index k of
        None \<Rightarrow> Inl OutsideModel
      | Some i \<Rightarrow>
          if i < length xs then Inr (JArr (xs[i := v]))
          else if i = length xs then Inr (JArr (xs @ [v]))
          else Inl OutsideModel)"
| "set_prop c k v = Inl TypeError"

text \<open>\<open>delete c[k]\<close> in strict mode.\<close>

fun delete_prop :: "jsvalue \<Rightarrow> string \<Rightarrow> error + jsvalue" where
  "delete_prop (JObj ps) k = Inr (JObj (filter (\<lambda>p. fst p \<noteq> k) ps))"
| "delete_prop (JArr xs) k =
     (if k = ''length'' then Inl TypeError
      else case canonical_index k of
             None \<Rightarrow> Inr (JArr xs)
           | Some i \<Rightarrow> if i < length xs then Inl OutsideModel else Inr (JArr xs))"
| "delete_prop (JStr s) k =
     (if k = ''length'' then Inl TypeError
      else case canonical_index k of
             None \<Rightarrow> Inr (JStr s)
           | Some i \<Rightarrow> if i < length s then Inl TypeError else Inr (JStr s))"
| "delete_prop JUndefined k = Inl TypeError"
| "delete_prop JNull k = Inl TypeError"
| "delete_prop c k = Inr c"

section \<open>The field schema and the arguments of the promise\<close>

record payload_request =
  user :: jsvalue
  localization :: bool

text \<open>
  The arguments of \<open>promise\<close> that stay the same through the whole traversal (\<open>Args\<close> of
  the source without \<open>field\<close>, \<open>fieldIndex\<close>, the two parent paths, \<open>siblingDoc\<close> and the
  two queues). \<open>requestContext\<close> is the source's \<open>context\<close> and \<open>localeCode\<close> its \<open>locale\<close>.
  Of \<open>req\<close> the code reads \<open>req.user\<close> and whether
  \<open>req.payload.config.localization\<close> is set. \<open>doc\<close> is the document as it was handed to
  the traversal: hooks and access functions get it as \<open>data\<close>, \<open>originalDoc\<close> and \<open>doc\<close>,
  and what the traversal has changed by then shows in \<open>siblingData\<close> only.
\<close>

record args =
  collection :: "string option"
  requestContext :: jsvalue
  currentDepth :: int
  depth :: int
  doc :: jsvalue
  draft :: bool
  fallbackLocale :: "string option"
  findMany :: bool
  flattenLocales :: bool
  global :: "string option"
  localeCode :: "string option"
  overrideAccess :: bool
  req :: payload_request
  showHiddenFields :: bool
  triggerAccessControl :: bool
  triggerHooks :: bool

datatype segment = PathKey string | PathIndex nat

text \<open>
  A hook is a function of what the code hands it: the arguments above (which hold
  \<open>collection\<close>, \<open>context\<close>, \<open>currentDepth\<close>, \<open>data\<close> and \<open>originalDoc\<close>, \<open>depth\<close>,
  \<open>draft\<close>, \<open>findMany\<close>, \<open>global\<close>, \<open>overrideAccess\<close>, \<open>req\<close>, \<open>showHiddenFields\<close> and,
  for the hooks of a rich-text editor, the remaining ones, \<open>locale\<close> among them),
  \<open>path\<close>, \<open>schemaPath\<close>, \<open>siblingData\<close> and \<open>value\<close>. It returns the hooked value and
  changes nothing itself.
  A read-access function gets the arguments, \<open>id\<close> and \<open>siblingData\<close>.
\<close>

type_synonym hook = "args \<Rightarrow> segment list \<Rightarrow> string list \<Rightarrow> jsvalue \<Rightarrow> jsvalue \<Rightarrow> jsvalue"

type_synonym access = "args \<Rightarrow> jsvalue \<Rightarrow> jsvalue \<Rightarrow> bool"

datatype default_value =
    DefaultLiteral jsvalue
  | DefaultFunction "string option \<Rightarrow> jsvalue \<Rightarrow> jsvalue"

datatype editor_prop =
    EditorFactory
  | EditorAdapter "hook list option"

datatype field_type =
    Text | Textarea | Group | Tabs | Tab | RichText | Point
  | Relationship | Upload | Join | Array | Blocks | Row | Collapsible
  | OtherType string

text \<open>
  One node of the schema (\<open>Field | TabAsField\<close>). A property the code reads and a node
  does not have is \<open>None\<close> (or \<open>False\<close>, or the empty list). \<open>subfields\<close> is the
  source's \<open>field.fields\<close>. The entries of \<open>tabs\<close> are the tabs of a \<open>tabs\<close> field; the
  code turns each into a field of type \<open>tab\<close>.
\<close>

datatype field =
  Field (ftype: field_type) (name: "string option") (localized: bool) (hidden: bool)
    (afterRead: "hook list option") (accessRead: "access option")
    (defaultValue: "default_value option") (editor: "editor_prop option")
    (subfields: "field list") (blocks: "block list") (tabs: "field list")
and block =
  Block (slug: string) (blockFields: "field list")

text \<open>
  The helpers \<open>promise\<close> imports from \<open>config/types.js\<close>, \<open>getFieldPaths.js\<close> and
  \<open>getDefaultValue.js\<close>. They are parameters here, so every theorem holds whatever they
  compute. \<open>getDefaultValue\<close> gets \<open>defaultValue\<close>, \<open>locale\<close>, \<open>user\<close> and \<open>value\<close>.
\<close>

record helpers =
  fieldAffectsData :: "field \<Rightarrow> bool"
  tabHasName :: "field \<Rightarrow> bool"
  getFieldPaths :: "field \<Rightarrow> segment list \<Rightarrow> string list \<Rightarrow> nat \<Rightarrow> segment list \<times> string list"
  getDefaultValue :: "default_value \<Rightarrow> string option \<Rightarrow> jsvalue \<Rightarrow> jsvalue \<Rightarrow> jsvalue"

text \<open>
  Modelled from the spec: \<open>relationshipPopulationPromise\<close> is not among the sources. A
  population task is the deferred work the spec describes, "capturing current depth,
  target depth limit, draft visibility, fallback locale, the field definition, locale,
  access-override flag, the request, show-hidden flag, and the owning sibling container".
  The container is held by reference in the source; here the task records its contents
  at the moment the task is created.
\<close>

record population_task =
  taskCurrentDepth :: int
  taskDepth :: int
  taskDraft :: bool
  taskFallbackLocale :: "string option"
  taskField :: field
  taskLocale :: "string option"
  taskOverrideAccess :: bool
  taskReq :: payload_request
  taskShowHiddenFields :: bool
  taskSiblingDoc :: jsvalue

definition relationshipPopulationPromise :: "args \<Rightarrow> field \<Rightarrow> jsvalue \<Rightarrow> population_task" where
  "relationshipPopulationPromise a f siblingDoc =
     \<lparr> taskCurrentDepth = currentDepth a, taskDepth = depth a, taskDraft = draft a,
       taskFallbackLocale = fallbackLocale a, taskField = f, taskLocale = localeCode a,
       taskOverrideAccess = overrideAccess a, taskReq = req a,
       taskShowHiddenFields = showHiddenFields a, taskSiblingDoc = siblingDoc \<rparr>"

text \<open>The key of \<open>siblingDoc[field.name]\<close>; a missing name reads as \<open>undefined\<close>.\<close>

definition field_key :: "field \<Rightarrow> string" where
  "field_key f = (case name f of None \<Rightarrow> ''undefined'' | Some n \<Rightarrow> n)"

text \<open>The key of \<open>x[locale]\<close> for \<open>locale: null | string\<close>.\<close>

definition locale_key :: "string option \<Rightarrow> string" where
  "locale_key l = (case l of None \<Rightarrow> ''null'' | Some c \<Rightarrow> c)"

section \<open>The steps of the promise before it descends\<close>

subsection \<open>Hidden fields (lines 89 to 96)\<close>

definition removeHidden :: "helpers \<Rightarrow> args \<Rightarrow> field \<Rightarrow> jsvalue \<Rightarrow> error + jsvalue" where
  "removeHidden hp a f siblingDoc =
     (if fieldAffectsData hp f \<and> hidden f then
        (case get_prop siblingDoc (field_key f) of
           Inl e \<Rightarrow> Inl e
         | Inr v \<Rightarrow>
             if typeof v \<noteq> ''undefined'' \<and> \<not> showHiddenFields a
             then delete_prop siblingDoc (field_key f)
             else Inr siblingDoc)
      else Inr siblingDoc)"

subsection \<open>Locale hoisting (lines 98 to 139)\<close>

definition shouldHoistLocalizedValue :: "helpers \<Rightarrow> args \<Rightarrow> field \<Rightarrow> jsvalue \<Rightarrow> error + bool" where
  "shouldHoistLocalizedValue hp a f siblingDoc =
     (if flattenLocales a \<and> fieldAffectsData hp f then
        (case get_prop siblingDoc (field_key f) of
           Inl e \<Rightarrow> Inl e
         | Inr v \<Rightarrow>
             Inr (typeof v = ''object'' \<and> v \<noteq> JNull \<and> localized f
                  \<and> localeCode a \<noteq> Some ''all'' \<and> localization (req a)))
      else Inr False)"

text \<open>
  The value that replaces the slot (\<open>hoistedValue\<close> of lines 110 to 136);
  \<open>localized_value\<close> is the slot's value \<open>siblingDoc[field.name]\<close>, which the guard above
  has found to be a non-null object.
\<close>

definition hoistedValue :: "args \<Rightarrow> field \<Rightarrow> jsvalue \<Rightarrow> jsvalue" where
  "hoistedValue a f localized_value =
     (let v = prop_of localized_value (locale_key (localeCode a)) in
      case fallbackLocale a of
        None \<Rightarrow> v
      | Some fl \<Rightarrow>
          if fl \<noteq> [] \<and> Some fl \<noteq> localeCode a then
            (let fallbackValue = prop_of localized_value fl;
                 isNullOrUndefined = (typeof v = ''undefined'' \<or> v = JNull)
             in if truthy fallbackValue then
                  (case ftype f of
                     Text \<Rightarrow> if v = JStr [] \<or> isNullOrUndefined then fallbackValue else v
                   | Textarea \<Rightarrow> if v = JStr [] \<or> isNullOrUndefined then fallbackValue else v
                   | _ \<Rightarrow> if isNullOrUndefined then fallbackValue else v)
                else v)
          else v)"

definition hoistLocalizedValue :: "helpers \<Rightarrow> args \<Rightarrow> field \<Rightarrow> jsvalue \<Rightarrow> error + (bool \<times> jsvalue)" where
  "hoistLocalizedValue hp a f siblingDoc =
     (case shouldHoistLocalizedValue hp a f siblingDoc of
        Inl e \<Rightarrow> Inl e
      | Inr shouldHoist \<Rightarrow>
          if shouldHoist then
            (case set_prop siblingDoc (field_key f)
                    (hoistedValue a f (prop_of siblingDoc (field_key f))) of
               Inl e \<Rightarrow> Inl e
             | Inr siblingDoc' \<Rightarrow> Inr (True, siblingDoc'))
          else Inr (False, siblingDoc))"

subsection \<open>Sanitizing the outgoing value (lines 141 to 191)\<close>

fun ensureTabs :: "helpers \<Rightarrow> field list \<Rightarrow> jsvalue \<Rightarrow> error + jsvalue" where
  "ensureTabs hp [] siblingDoc = Inr siblingDoc"
| "ensureTabs hp (tab # rest) siblingDoc =
     (if tabHasName hp tab then
        (case get_prop siblingDoc (field_key tab) of
           Inl e \<Rightarrow> Inl e
         | Inr v \<Rightarrow>
             if typeof v = ''undefined'' \<or> v = JNull then
               (case set_prop siblingDoc (field_key tab) (JObj []) of
                  Inl e \<Rightarrow> Inl e
                | Inr siblingDoc' \<Rightarrow> ensureTabs hp rest siblingDoc')
             else ensureTabs hp rest siblingDoc)
      else ensureTabs hp rest siblingDoc)"

text \<open>The two checks of a rich-text field's \<open>editor\<close> (lines 166 to 171 and 594 to 599).\<close>

definition checkEditor :: "field \<Rightarrow> error option" where
  "checkEditor f =
     (case editor f of
        None \<Rightarrow> Some MissingEditorProp
      | Some EditorFactory \<Rightarrow> Some UnsanitizedEditor
      | Some (EditorAdapter hs) \<Rightarrow> None)"

definition sanitize :: "helpers \<Rightarrow> field \<Rightarrow> jsvalue \<Rightarrow> error + jsvalue" where
  "sanitize hp f siblingDoc =
     (case ftype f of
        Group \<Rightarrow>
          (case get_prop siblingDoc (field_key f) of
             Inl e \<Rightarrow> Inl e
           | Inr v \<Rightarrow>
               if typeof v = ''undefined'' then set_prop siblingDoc (field_key f) (JObj [])
               else Inr siblingDoc)
      | Tabs \<Rightarrow> ensureTabs hp (tabs f) siblingDoc
      | RichText \<Rightarrow>
          (case checkEditor f of Some e \<Rightarrow> Inl e | None \<Rightarrow> Inr siblingDoc)
      | Point \<Rightarrow>
          (case get_prop siblingDoc (field_key f) of
             Inl e \<Rightarrow> Inl e
           | Inr pointDoc \<Rightarrow>
               (let coordinates = opt_prop pointDoc ''coordinates'' in
                if isArray coordinates \<and> prop_of coordinates ''length'' = JNum 2
                then set_prop siblingDoc (field_key f) coordinates
                else set_prop siblingDoc (field_key f) JUndefined))
      | _ \<Rightarrow> Inr siblingDoc)"

subsection \<open>Hooks (lines 195 to 262, and 603 to 684 for a rich-text editor)\<close>

definition shouldRunHookOnAllLocales :: "args \<Rightarrow> field \<Rightarrow> jsvalue \<Rightarrow> bool" where
  "shouldRunHookOnAllLocales a f v =
     (localized f \<and> (localeCode a = Some ''all'' \<or> \<not> flattenLocales a) \<and> typeof v = ''object'')"

text \<open>The write-back rule: \<open>undefined\<close> from a hook leaves the value as it is.\<close>

definition hooked :: "jsvalue \<Rightarrow> jsvalue \<Rightarrow> jsvalue" where
  "hooked hookedValue v = (if hookedValue \<noteq> JUndefined then hookedValue else v)"

text \<open>
  One hook on one field. On all locales, the hook is called on every entry of the
  value with the container as it is before any entry is written, and each defined
  result replaces its entry (the keys of an object are distinct);
  \<open>Object.entries(null)\<close> is a \<open>TypeError\<close>.
\<close>

definition runHook ::
  "args \<Rightarrow> field \<Rightarrow> segment list \<Rightarrow> string list \<Rightarrow> hook \<Rightarrow> jsvalue \<Rightarrow> error + jsvalue" where
  "runHook a f fieldPath fieldSchemaPath currentHook siblingDoc =
     (case get_prop siblingDoc (field_key f) of
        Inl e \<Rightarrow> Inl e
      | Inr v \<Rightarrow>
          if shouldRunHookOnAllLocales a f v then
            (case v of
               JObj entries \<Rightarrow>
                 set_prop siblingDoc (field_key f)
                   (JObj (map (\<lambda>(l, x). (l, hooked (currentHook a fieldPath fieldSchemaPath siblingDoc x) x)) entries))
             | JArr xs \<Rightarrow>
                 set_prop siblingDoc (field_key f)
                   (JArr (map (\<lambda>x. hooked (currentHook a fieldPath fieldSchemaPath siblingDoc x) x) xs))
             | _ \<Rightarrow> Inl TypeError)
          else
            (let hookedValue = currentHook a fieldPath fieldSchemaPath siblingDoc v in
             if hookedValue \<noteq> JUndefined then set_prop siblingDoc (field_key f) hookedValue
             else Inr siblingDoc))"

text \<open>The \<open>reduce\<close> over the hooks: each hook starts when the one before it has finished.\<close>

fun runHooks ::
  "args \<Rightarrow> field \<Rightarrow> segment list \<Rightarrow> string list \<Rightarrow> hook list \<Rightarrow> jsvalue \<Rightarrow> error + jsvalue" where
  "runHooks a f fieldPath fieldSchemaPath [] siblingDoc = Inr siblingDoc"
| "runHooks a f fieldPath fieldSchemaPath (currentHook # rest) siblingDoc =
     (case runHook a f fieldPath fieldSchemaPath currentHook siblingDoc of
        Inl e \<Rightarrow> Inl e
      | Inr siblingDoc' \<Rightarrow> runHooks a f fieldPath fieldSchemaPath rest siblingDoc')"

definition executeHooks ::
  "args \<Rightarrow> field \<Rightarrow> segment list \<Rightarrow> string list \<Rightarrow> jsvalue \<Rightarrow> error + jsvalue" where
  "executeHooks a f fieldPath fieldSchemaPath siblingDoc =
     (if triggerHooks a then
        (case afterRead f of
           None \<Rightarrow> Inr siblingDoc
         | Some hs \<Rightarrow> runHooks a f fieldPath fieldSchemaPath hs siblingDoc)
      else Inr siblingDoc)"

text \<open>
  The key of an index in \<open>Object.entries\<close> of an array: its decimal numeral.
\<close>

fun index_key :: "nat \<Rightarrow> string" where
  "index_key n =
     (if n < 10 then [''0123456789'' ! n]
      else index_key (n div 10) @ [''0123456789'' ! (n mod 10)])"

declare index_key.simps [simp del]

text \<open>
  One hook of the editor of a rich-text field (lines 605 to 682). It differs from
  \<open>runHook\<close> in what the hook is handed: on all locales, the \<open>locale\<close> it gets is the key of
  the entry (line 613 binds the name anew).
\<close>

definition runEditorHook ::
  "args \<Rightarrow> field \<Rightarrow> segment list \<Rightarrow> string list \<Rightarrow> hook \<Rightarrow> jsvalue \<Rightarrow> error + jsvalue" where
  "runEditorHook a f fieldPath fieldSchemaPath currentHook siblingDoc =
     (case get_prop siblingDoc (field_key f) of
        Inl e \<Rightarrow> Inl e
      | Inr v \<Rightarrow>
          if shouldRunHookOnAllLocales a f v then
            (case v of
               JObj entries \<Rightarrow>
                 set_prop siblingDoc (field_key f)
                   (JObj (map (\<lambda>(l, x).
                             (l, hooked (currentHook (a \<lparr> localeCode := Some l \<rparr>)
                                           fieldPath fieldSchemaPath siblingDoc x) x))
                           entries))
             | JArr xs \<Rightarrow>
                 set_prop siblingDoc (field_key f)
                   (JArr (map (\<lambda>(i, x).
                             hooked (currentHook (a \<lparr> localeCode := Some (index_key i) \<rparr>)
                                       fieldPath fieldSchemaPath siblingDoc x) x)
                           (enumerate 0 xs)))
             | _ \<Rightarrow> Inl TypeError)
          else
            (let hookedValue = currentHook a fieldPath fieldSchemaPath siblingDoc v in
             if hookedValue \<noteq> JUndefined then set_prop siblingDoc (field_key f) hookedValue
             else Inr siblingDoc))"

fun runEditorHooks ::
  "args \<Rightarrow> field \<Rightarrow> segment list \<Rightarrow> string list \<Rightarrow> hook list \<Rightarrow> jsvalue \<Rightarrow> error + jsvalue" where
  "runEditorHooks a f fieldPath fieldSchemaPath [] siblingDoc = Inr siblingDoc"
| "runEditorHooks a f fieldPath fieldSchemaPath (currentHook # rest) siblingDoc =
     (case runEditorHook a f fieldPath fieldSchemaPath currentHook siblingDoc of
        Inl e \<Rightarrow> Inl e
      | Inr siblingDoc' \<Rightarrow> runEditorHooks a f fieldPath fieldSchemaPath rest siblingDoc')"

subsection \<open>Read access and the default value (lines 264 to 296)\<close>

text \<open>The result is \<open>allowDefaultValue\<close> and the container.\<close>

definition executeAccess :: "args \<Rightarrow> field \<Rightarrow> jsvalue \<Rightarrow> error + (bool \<times> jsvalue)" where
  "executeAccess a f siblingDoc =
     (if triggerAccessControl a then
        (case accessRead f of
           None \<Rightarrow> Inr (True, siblingDoc)
         | Some read \<Rightarrow>
             if overrideAccess a then Inr (True, siblingDoc)
             else
               (case get_prop (doc a) ''id'' of
                  Inl e \<Rightarrow> Inl e
                | Inr docId \<Rightarrow>
                    if read a docId siblingDoc then Inr (True, siblingDoc)
                    else
                      (case delete_prop siblingDoc (field_key f) of
                         Inl e \<Rightarrow> Inl e
                       | Inr siblingDoc' \<Rightarrow> Inr (False, siblingDoc'))))
      else Inr (True, siblingDoc))"

text \<open>\<open>typeof field.defaultValue !== 'undefined'\<close> for a default that is configured.\<close>

fun defaultValueDefined :: "default_value \<Rightarrow> bool" where
  "defaultValueDefined (DefaultLiteral v) = (typeof v \<noteq> ''undefined'')"
| "defaultValueDefined (DefaultFunction g) = True"

definition setDefaultValue ::
  "helpers \<Rightarrow> args \<Rightarrow> field \<Rightarrow> bool \<Rightarrow> jsvalue \<Rightarrow> error + jsvalue" where
  "setDefaultValue hp a f allowDefaultValue siblingDoc =
     (if allowDefaultValue then
        (case get_prop siblingDoc (field_key f) of
           Inl e \<Rightarrow> Inl e
         | Inr v \<Rightarrow>
             (case defaultValue f of
                None \<Rightarrow> Inr siblingDoc
              | Some d \<Rightarrow>
                  if typeof v = ''undefined'' \<and> defaultValueDefined d
                  then set_prop siblingDoc (field_key f)
                         (getDefaultValue hp d (localeCode a) (user (req a)) v)
                  else Inr siblingDoc))
      else Inr siblingDoc)"

subsection \<open>Scheduling the population (lines 298 to 313)\<close>

definition schedulePopulation ::
  "args \<Rightarrow> field \<Rightarrow> jsvalue \<Rightarrow> population_task list \<Rightarrow> population_task list" where
  "schedulePopulation a f siblingDoc populationPromises =
     (if ftype f = Relationship \<or> ftype f = Upload \<or> ftype f = Join
      then populationPromises @ [relationshipPopulationPromise a f siblingDoc]
      else populationPromises)"

subsection \<open>The block for a field that affects data (lines 193 to 314)\<close>

definition affectsDataSteps ::
  "helpers \<Rightarrow> args \<Rightarrow> field \<Rightarrow> segment list \<Rightarrow> string list \<Rightarrow> jsvalue \<Rightarrow> population_task list
   \<Rightarrow> error + (jsvalue \<times> population_task list)" where
  "affectsDataSteps hp a f fieldPath fieldSchemaPath siblingDoc populationPromises =
     (if fieldAffectsData hp f then
        (case executeHooks a f fieldPath fieldSchemaPath siblingDoc of
           Inl e \<Rightarrow> Inl e
         | Inr s1 \<Rightarrow>
             (case executeAccess a f s1 of
                Inl e \<Rightarrow> Inl e
              | Inr (allowDefaultValue, s2) \<Rightarrow>
                  (case setDefaultValue hp a f allowDefaultValue s2 of
                     Inl e \<Rightarrow> Inl e
                   | Inr s3 \<Rightarrow> Inr (s3, schedulePopulation a f s3 populationPromises))))
      else Inr (siblingDoc, populationPromises))"

text \<open>
  Everything \<open>promise\<close> does before the second \<open>switch\<close> (lines 89 to 314). The result is
  \<open>shouldHoistLocalizedValue\<close>, the container and the population queue.
\<close>

definition beforeTraversal ::
  "helpers \<Rightarrow> args \<Rightarrow> field \<Rightarrow> segment list \<Rightarrow> string list \<Rightarrow> jsvalue \<Rightarrow> population_task list
   \<Rightarrow> error + (bool \<times> jsvalue \<times> population_task list)" where
  "beforeTraversal hp a f fieldPath fieldSchemaPath siblingDoc populationPromises =
     (case removeHidden hp a f siblingDoc of
        Inl e \<Rightarrow> Inl e
      | Inr s1 \<Rightarrow>
          (case hoistLocalizedValue hp a f s1 of
             Inl e \<Rightarrow> Inl e
           | Inr (shouldHoist, s2) \<Rightarrow>
               (case sanitize hp f s2 of
                  Inl e \<Rightarrow> Inl e
                | Inr s3 \<Rightarrow>
                    (case affectsDataSteps hp a f fieldPath fieldSchemaPath s3 populationPromises of
                       Inl e \<Rightarrow> Inl e
                     | Inr (s4, q) \<Rightarrow> Inr (shouldHoist, s4, q)))))"

text \<open>
  The steps of \<open>promise\<close> before the access check (lines 89 to 262). The result is
  \<open>shouldHoistLocalizedValue\<close> and the container, which is what a read-access function gets
  as \<open>siblingData\<close>.
\<close>

definition beforeAccess ::
  "helpers \<Rightarrow> args \<Rightarrow> field \<Rightarrow> segment list \<Rightarrow> string list \<Rightarrow> jsvalue \<Rightarrow> error + (bool \<times> jsvalue)" where
  "beforeAccess hp a f fieldPath fieldSchemaPath siblingDoc =
     (case removeHidden hp a f siblingDoc of
        Inl e \<Rightarrow> Inl e
      | Inr s1 \<Rightarrow>
          (case hoistLocalizedValue hp a f s1 of
             Inl e \<Rightarrow> Inl e
           | Inr (shouldHoist, s2) \<Rightarrow>
               (case sanitize hp f s2 of
                  Inl e \<Rightarrow> Inl e
                | Inr s3 \<Rightarrow>
                    if fieldAffectsData hp f then
                      (case executeHooks a f fieldPath fieldSchemaPath s3 of
                         Inl e \<Rightarrow> Inl e
                       | Inr s4 \<Rightarrow> Inr (shouldHoist, s4))
                    else Inr (shouldHoist, s3))))"

section \<open>The promise and the traversal\<close>

text \<open>\<open>{ ...tab, type: 'tab' }\<close> (line 575).\<close>

definition asTab :: "field \<Rightarrow> field" where
  "asTab t = Field Tab (name t) (localized t) (hidden t) (afterRead t) (accessRead t)
               (defaultValue t) (editor t) (subfields t) (blocks t) (tabs t)"

text \<open>\<open>row || {}\<close> (lines 376, 405, 448 and 483).\<close>

definition rowOrEmpty :: "jsvalue \<Rightarrow> jsvalue" where
  "rowOrEmpty row = (if truthy row then row else JObj [])"

text \<open>
  \<open>field.blocks.find((blockType) => blockType.slug === row.blockType)\<close> (lines 423 and
  458). \<open>row.blockType\<close> is read for every block the search reaches, so a row that is
  \<open>null\<close> or \<open>undefined\<close> is a \<open>TypeError\<close> unless the field has no blocks.
\<close>

fun findBlock :: "block list \<Rightarrow> jsvalue \<Rightarrow> error + block option" where
  "findBlock [] row = Inr None"
| "findBlock (curBlock # rest) row =
     (case get_prop row ''blockType'' of
        Inl e \<Rightarrow> Inl e
      | Inr blockType \<Rightarrow>
          if JStr (slug curBlock) = blockType then Inr (Some curBlock) else findBlock rest row)"

text \<open>
  \<open>promise\<close> (lines 57 to 692) and the loops it starts. Every \<open>await\<close> resolves at once,
  so a field is finished before its next sibling starts. The promises of nested fields,
  which the source collects in \<open>fieldPromises\<close> for the caller to await, are run where they
  are created, and a rejected one ends the read with its error.

  Modelled from the spec: \<open>traverseFields\<close> is not among the sources. It "recursively
  applies the above to every field of a document/sub-document", and "traversal order
  across sibling fields is the schema's declaration order": it calls \<open>promise\<close> on each
  field in turn, with the field's position as \<open>fieldIndex\<close> and its own \<open>path\<close> and
  \<open>schemaPath\<close> as the parent paths.

  A nested container is reached by reference in the source. Here the traversal of a
  nested container returns the container as it has become, and the caller puts it back
  in the slot it was read from. Where the source traverses a new object (\<open>groupDoc = {}\<close>,
  \<open>tabDoc = {}\<close>, \<open>row || {}\<close> for a falsy row), nothing refers to that object afterwards and
  the result is dropped.

  \<open>traverseRows\<close> is \<open>rows.forEach((row, i) => traverseFields(...))\<close> of an array field
  (lines 355 to 380 and 384 to 409), \<open>traverseLocaleRows\<close> is
  \<open>Object.values(rows).forEach(...)\<close> around it (lines 382 to 411); \<open>traverseBlockRows\<close>
  and \<open>traverseLocaleBlockRows\<close> are the same loops of a blocks field (lines 422 to 453
  and 455 to 490).
\<close>

function
  promise :: "helpers \<Rightarrow> args \<Rightarrow> field \<Rightarrow> nat \<Rightarrow> segment list \<Rightarrow> string list \<Rightarrow> jsvalue
    \<Rightarrow> population_task list \<Rightarrow> error + (jsvalue \<times> population_task list)"
and traverseFields :: "helpers \<Rightarrow> args \<Rightarrow> field list \<Rightarrow> nat \<Rightarrow> segment list \<Rightarrow> string list \<Rightarrow> jsvalue
    \<Rightarrow> population_task list \<Rightarrow> error + (jsvalue \<times> population_task list)"
and traverseRows :: "helpers \<Rightarrow> args \<Rightarrow> field list \<Rightarrow> segment list \<Rightarrow> string list \<Rightarrow> nat \<Rightarrow> jsvalue list
    \<Rightarrow> population_task list \<Rightarrow> error + (jsvalue list \<times> population_task list)"
and traverseLocaleRows :: "helpers \<Rightarrow> args \<Rightarrow> field list \<Rightarrow> segment list \<Rightarrow> string list
    \<Rightarrow> (string \<times> jsvalue) list \<Rightarrow> population_task list
    \<Rightarrow> error + ((string \<times> jsvalue) list \<times> population_task list)"
and traverseBlockRows :: "helpers \<Rightarrow> args \<Rightarrow> block list \<Rightarrow> segment list \<Rightarrow> string list \<Rightarrow> nat \<Rightarrow> jsvalue list
    \<Rightarrow> population_task list \<Rightarrow> error + (jsvalue list \<times> population_task list)"
and traverseLocaleBlockRows :: "helpers \<Rightarrow> args \<Rightarrow> block list \<Rightarrow> segment list \<Rightarrow> string list
    \<Rightarrow> (string \<times> jsvalue) list \<Rightarrow> population_task list
    \<Rightarrow> error + ((string \<times> jsvalue) list \<times> population_task list)"
where
  "promise hp a f fieldIndex parentPath parentSchemaPath siblingDoc populationPromises =
     (let paths = getFieldPaths hp f parentPath parentSchemaPath fieldIndex;
          fieldPath = fst paths;
          fieldSchemaPath = snd paths
      in
      case beforeTraversal hp a f fieldPath fieldSchemaPath siblingDoc populationPromises of
        Inl e \<Rightarrow> Inl e
      | Inr (shouldHoist, s, q) \<Rightarrow>
          (case ftype f of
             Group \<Rightarrow>
               (case get_prop s (field_key f) of
                  Inl e \<Rightarrow> Inl e
                | Inr groupDoc \<Rightarrow>
                    if typeof groupDoc \<noteq> ''object'' then
                      (case traverseFields hp a (subfields f) 0 fieldPath fieldSchemaPath (JObj []) q of
                         Inl e \<Rightarrow> Inl e
                       | Inr (detached, q') \<Rightarrow> Inr (s, q'))
                    else
                      (case traverseFields hp a (subfields f) 0 fieldPath fieldSchemaPath groupDoc q of
                         Inl e \<Rightarrow> Inl e
                       | Inr (groupDoc', q') \<Rightarrow>
                           (case set_prop s (field_key f) groupDoc' of
                              Inl e \<Rightarrow> Inl e
                            | Inr s' \<Rightarrow> Inr (s', q'))))
           | Array \<Rightarrow>
               (case get_prop s (field_key f) of
                  Inl e \<Rightarrow> Inl e
                | Inr rows \<Rightarrow>
                    (case rows of
                       JArr rs \<Rightarrow>
                         (case traverseRows hp a (subfields f) fieldPath fieldSchemaPath 0 rs q of
                            Inl e \<Rightarrow> Inl e
                          | Inr (rs', q') \<Rightarrow>
                              (case set_prop s (field_key f) (JArr rs') of
                                 Inl e \<Rightarrow> Inl e
                               | Inr s' \<Rightarrow> Inr (s', q')))
                     | JObj entries \<Rightarrow>
                         if \<not> shouldHoist then
                           (case traverseLocaleRows hp a (subfields f) fieldPath fieldSchemaPath entries q of
                              Inl e \<Rightarrow> Inl e
                            | Inr (entries', q') \<Rightarrow>
                                (case set_prop s (field_key f) (JObj entries') of
                                   Inl e \<Rightarrow> Inl e
                                 | Inr s' \<Rightarrow> Inr (s', q')))
                         else
                           (case set_prop s (field_key f) (JArr []) of
                              Inl e \<Rightarrow> Inl e
                            | Inr s' \<Rightarrow> Inr (s', q))
                     | _ \<Rightarrow>
                         (case set_prop s (field_key f) (JArr []) of
                            Inl e \<Rightarrow> Inl e
                          | Inr s' \<Rightarrow> Inr (s', q))))
           | Blocks \<Rightarrow>
               (case get_prop s (field_key f) of
                  Inl e \<Rightarrow> Inl e
                | Inr rows \<Rightarrow>
                    (case rows of
                       JArr rs \<Rightarrow>
                         (case traverseBlockRows hp a (blocks f) fieldPath fieldSchemaPath 0 rs q of
                            Inl e \<Rightarrow> Inl e
                          | Inr (rs', q') \<Rightarrow>
                              (case set_prop s (field_key f) (JArr rs') of
                                 Inl e \<Rightarrow> Inl e
                               | Inr s' \<Rightarrow> Inr (s', q')))
                     | JObj entries \<Rightarrow>
                         if \<not> shouldHoist then
                           (case traverseLocaleBlockRows hp a (blocks f) fieldPath fieldSchemaPath entries q of
                              Inl e \<Rightarrow> Inl e
                            | Inr (entries', q') \<Rightarrow>
                                (case set_prop s (field_key f) (JObj entries') of
                                   Inl e \<Rightarrow> Inl e
                                 | Inr s' \<Rightarrow> Inr (s', q')))
                         else
                           (case set_prop s (field_key f) (JArr []) of
                              Inl e \<Rightarrow> Inl e
                            | Inr s' \<Rightarrow> Inr (s', q))
                     | _ \<Rightarrow>
                         (case set_prop s (field_key f) (JArr []) of
                            Inl e \<Rightarrow> Inl e
                          | Inr s' \<Rightarrow> Inr (s', q))))
           | Row \<Rightarrow> traverseFields hp a (subfields f) 0 fieldPath fieldSchemaPath s q
           | Collapsible \<Rightarrow> traverseFields hp a (subfields f) 0 fieldPath fieldSchemaPath s q
           | Tab \<Rightarrow>
               if tabHasName hp f then
                 (case get_prop s (field_key f) of
                    Inl e \<Rightarrow> Inl e
                  | Inr tabDoc \<Rightarrow>
                      if typeof tabDoc \<noteq> ''object'' then
                        (case traverseFields hp a (subfields f) 0 fieldPath fieldSchemaPath (JObj []) q of
                           Inl e \<Rightarrow> Inl e
                         | Inr (detached, q') \<Rightarrow> Inr (s, q'))
                      else
                        (case traverseFields hp a (subfields f) 0 fieldPath fieldSchemaPath tabDoc q of
                           Inl e \<Rightarrow> Inl e
                         | Inr (tabDoc', q') \<Rightarrow>
                             (case set_prop s (field_key f) tabDoc' of
                                Inl e \<Rightarrow> Inl e
                              | Inr s' \<Rightarrow> Inr (s', q'))))
               else traverseFields hp a (subfields f) 0 fieldPath fieldSchemaPath s q
           | Tabs \<Rightarrow> traverseFields hp a (map asTab (tabs f)) 0 fieldPath fieldSchemaPath s q
           | RichText \<Rightarrow>
               (case checkEditor f of
                  Some e \<Rightarrow> Inl e
                | None \<Rightarrow>
                    (case editor f of
                       Some (EditorAdapter (Some hs)) \<Rightarrow>
                         if hs \<noteq> [] then
                           (case runEditorHooks a f fieldPath fieldSchemaPath hs s of
                              Inl e \<Rightarrow> Inl e
                            | Inr s' \<Rightarrow> Inr (s', q))
                         else Inr (s, q)
                     | _ \<Rightarrow> Inr (s, q)))
           | _ \<Rightarrow> Inr (s, q)))"
| "traverseFields hp a [] fieldIndex path schemaPath siblingDoc populationPromises =
     Inr (siblingDoc, populationPromises)"
| "traverseFields hp a (f # rest) fieldIndex path schemaPath siblingDoc populationPromises =
     (case promise hp a f fieldIndex path schemaPath siblingDoc populationPromises of
        Inl e \<Rightarrow> Inl e
      | Inr (s, q) \<Rightarrow> traverseFields hp a rest (Suc fieldIndex) path schemaPath s q)"
| "traverseRows hp a fs fieldPath fieldSchemaPath i [] populationPromises =
     Inr ([], populationPromises)"
| "traverseRows hp a fs fieldPath fieldSchemaPath i (row # rest) populationPromises =
     (case traverseFields hp a fs 0 (fieldPath @ [PathIndex i]) fieldSchemaPath (rowOrEmpty row)
             populationPromises of
        Inl e \<Rightarrow> Inl e
      | Inr (row', q) \<Rightarrow>
          (case traverseRows hp a fs fieldPath fieldSchemaPath (Suc i) rest q of
             Inl e \<Rightarrow> Inl e
           | Inr (rest', q') \<Rightarrow> Inr ((if truthy row then row' else row) # rest', q')))"
| "traverseLocaleRows hp a fs fieldPath fieldSchemaPath [] populationPromises =
     Inr ([], populationPromises)"
| "traverseLocaleRows hp a fs fieldPath fieldSchemaPath (entry # rest) populationPromises =
     (case snd entry of
        JArr localeRows \<Rightarrow>
          (case traverseRows hp a fs fieldPath fieldSchemaPath 0 localeRows populationPromises of
             Inl e \<Rightarrow> Inl e
           | Inr (localeRows', q) \<Rightarrow>
               (case traverseLocaleRows hp a fs fieldPath fieldSchemaPath rest q of
                  Inl e \<Rightarrow> Inl e
                | Inr (rest', q') \<Rightarrow> Inr ((fst entry, JArr localeRows') # rest', q')))
      | _ \<Rightarrow>
          (case traverseLocaleRows hp a fs fieldPath fieldSchemaPath rest populationPromises of
             Inl e \<Rightarrow> Inl e
           | Inr (rest', q') \<Rightarrow> Inr (entry # rest', q')))"
| "traverseBlockRows hp a bs fieldPath fieldSchemaPath i [] populationPromises =
     Inr ([], populationPromises)"
| "traverseBlockRows hp a bs fieldPath fieldSchemaPath i (row # rest) populationPromises =
     (case findBlock bs row of
        Inl e \<Rightarrow> Inl e
      | Inr None \<Rightarrow>
          (case traverseBlockRows hp a bs fieldPath fieldSchemaPath (Suc i) rest populationPromises of
             Inl e \<Rightarrow> Inl e
           | Inr (rest', q') \<Rightarrow> Inr (row # rest', q'))
      | Inr (Some b) \<Rightarrow>
          (case traverseFields hp a (blockFields b) 0 (fieldPath @ [PathIndex i]) fieldSchemaPath
                  (rowOrEmpty row) populationPromises of
             Inl e \<Rightarrow> Inl e
           | Inr (row', q) \<Rightarrow>
               (case traverseBlockRows hp a bs fieldPath fieldSchemaPath (Suc i) rest q of
                  Inl e \<Rightarrow> Inl e
                | Inr (rest', q') \<Rightarrow> Inr ((if truthy row then row' else row) # rest', q'))))"
| "traverseLocaleBlockRows hp a bs fieldPath fieldSchemaPath [] populationPromises =
     Inr ([], populationPromises)"
| "traverseLocaleBlockRows hp a bs fieldPath fieldSchemaPath (entry # rest) populationPromises =
     (case snd entry of
        JArr localeRows \<Rightarrow>
          (case traverseBlockRows hp a bs fieldPath fieldSchemaPath 0 localeRows populationPromises of
             Inl e \<Rightarrow> Inl e
           | Inr (localeRows', q) \<Rightarrow>
               (case traverseLocaleBlockRows hp a bs fieldPath fieldSchemaPath rest q of
                  Inl e \<Rightarrow> Inl e
                | Inr (rest', q') \<Rightarrow> Inr ((fst entry, JArr localeRows') # rest', q')))
      | _ \<Rightarrow>
          (case traverseLocaleBlockRows hp a bs fieldPath fieldSchemaPath rest populationPromises of
             Inl e \<Rightarrow> Inl e
           | Inr (rest', q') \<Rightarrow> Inr (entry # rest', q')))"
  by pat_completeness auto

text \<open>
  Every call descends in the schema: from a field to its sub-fields, its blocks or its
  tabs, from a list of fields to one of them, and from a list of blocks to the fields of
  one of them; the loops over rows and entries keep the schema and shorten the list.
\<close>

termination
proof -
  have size_asTab: "size (asTab t) \<le> size t" for t
    by (cases t) (simp add: asTab_def)
  have size_list_asTab: "size_list size (map asTab ts) \<le> size_list size ts" for ts
    by (induction ts) (auto simp: size_asTab add_mono)
  have size_find_block:
    "findBlock bs row = Inr (Some b) \<Longrightarrow> size_list size (blockFields b) < size_list size bs"
    for bs row b
  proof (induction bs)
    case Nil
    then show ?case by simp
  next
    case (Cons c bs)
    from Cons.prems obtain t where t: "get_prop row ''blockType'' = Inr t"
      by (auto split: sum.splits)
    show ?case
    proof (cases "JStr (slug c) = t")
      case True
      with Cons.prems t have "b = c" by simp
      then show ?thesis by (cases c) simp
    next
      case False
      with Cons t show ?thesis by simp
    qed
  qed
  have size_subfields: "size_list size (subfields f) < size f" for f
    by (cases f) simp
  have size_blocks: "size_list size (blocks f) < size f" for f
    by (cases f) simp
  have size_tabs: "size_list (size \<circ> asTab) (tabs f) < size f" for f
  proof -
    have "size_list size (tabs f) < size f" by (cases f) simp
    with size_list_asTab [of "tabs f"] show ?thesis by (simp add: size_list_map)
  qed
  show ?thesis
    apply (relation "inv_image (less_than <*lex*> less_than <*lex*> less_than)
      (\<lambda>x. case x of
          Inl (Inl (hp, a, f, i, p, sp, s, q)) \<Rightarrow> (size f, 0::nat, 0::nat)
        | Inl (Inr (Inl (hp, a, fs, i, p, sp, s, q))) \<Rightarrow> (size_list size fs, 0, 0)
        | Inl (Inr (Inr (hp, a, fs, p, sp, i, rows, q))) \<Rightarrow> (size_list size fs, 1, length rows)
        | Inr (Inl (hp, a, fs, p, sp, es, q)) \<Rightarrow> (size_list size fs, 2, length es)
        | Inr (Inr (Inl (hp, a, bs, p, sp, i, rows, q))) \<Rightarrow> (size_list size bs, 1, length rows)
        | Inr (Inr (Inr (hp, a, bs, p, sp, es, q))) \<Rightarrow> (size_list size bs, 2, length es))")
     apply (intro wf_inv_image wf_lex_prod wf_less_than)
    apply (simp_all add: size_subfields size_blocks size_tabs size_find_block)
    done
qed

section \<open>Concrete inputs for the examples\<close>

text \<open>
  Modelled from the spec: the helpers of the examples. A field "carries data" when it has
  a name, and a tab is "named" when it has one; the path resolver gives "instance path =
  parent path + field's name (or, for unnamed structural fields, nothing appended);
  schema path = parent schema path + field's name or a synthetic segment for unnamed
  fields" (the synthetic segment is not specified further); the default is "literal or
  computed from requesting user + locale". Only the examples use them.
\<close>

definition specHelpers :: helpers where
  "specHelpers =
     \<lparr> fieldAffectsData = (\<lambda>f. name f \<noteq> None),
       tabHasName = (\<lambda>f. name f \<noteq> None),
       getFieldPaths = (\<lambda>f parentPath parentSchemaPath schemaIndex.
          (case name f of
             None \<Rightarrow> (parentPath, parentSchemaPath @ [''_index''])
           | Some n \<Rightarrow> (parentPath @ [PathKey n], parentSchemaPath @ [n]))),
       getDefaultValue = (\<lambda>d l u v.
          case d of DefaultLiteral x \<Rightarrow> x | DefaultFunction g \<Rightarrow> g l u) \<rparr>"

text \<open>
  A read of one document in locale \<open>en\<close> with fallback \<open>de\<close>, locales flattened,
  localization configured, hidden fields not shown, hooks and access control on.
\<close>

definition exampleArgs :: args where
  "exampleArgs =
     \<lparr> collection = Some ''posts'', requestContext = JObj [], currentDepth = 0, depth = 2,
       doc = JObj [(''id'', JNum 1)], draft = False, fallbackLocale = Some ''de'',
       findMany = False, flattenLocales = True, global = None, localeCode = Some ''en'',
       overrideAccess = False, req = \<lparr> user = JNull, localization = True \<rparr>,
       showHiddenFields = False, triggerAccessControl = True, triggerHooks = True \<rparr>"

text \<open>A field with a name and a type, and nothing else configured.\<close>

definition plainField :: "field_type \<Rightarrow> string \<Rightarrow> field" where
  "plainField t n = Field t (Some n) False False None None None None [] [] []"

text \<open>
  The two hooks of the spec's example: \<open>h1\<close> returns \<open>'a'\<close> and \<open>h2\<close> returns
  \<open>value.toUpperCase()\<close> (on ASCII letters; a value that is not a string has no such
  method, and the hook then leaves it alone).
\<close>

fun upperChar :: "char \<Rightarrow> char" where
  "upperChar (Char b0 b1 b2 b3 b4 b5 b6 b7) =
     (let n = (of_char (Char b0 b1 b2 b3 b4 b5 b6 b7) :: nat)
      in if 97 \<le> n \<and> n \<le> 122 then Char b0 b1 b2 b3 b4 False b6 b7
         else Char b0 b1 b2 b3 b4 b5 b6 b7)"

definition toUpperCase :: "string \<Rightarrow> string" where
  "toUpperCase s = map upperChar s"

definition hookReturnsA :: hook where
  "hookReturnsA a fieldPath fieldSchemaPath siblingData v = JStr ''a''"

definition hookUpperCase :: hook where
  "hookUpperCase a fieldPath fieldSchemaPath siblingData v =
     (case v of JStr s \<Rightarrow> JStr (toUpperCase s) | _ \<Rightarrow> JUndefined)"

definition titleWithHooks :: field where
  "titleWithHooks =
     Field Text (Some ''title'') False False (Some [hookReturnsA, hookUpperCase])
       None None None [] [] []"

text \<open>A field whose read access is always denied and that has a default value.\<close>

definition denyAll :: access where
  "denyAll a docId siblingData = False"

definition secretWithDefault :: field where
  "secretWithDefault =
     Field Text (Some ''secret'') False False None (Some denyAll)
       (Some (DefaultLiteral (JStr ''none''))) None [] [] []"


text \<open>
  A group with one nested text field that has a default value, a hidden text field, and
  an array field without sub-fields.
\<close>

definition nestedWithDefault :: field where
  "nestedWithDefault =
     Field Text (Some ''summary'') False False None None
       (Some (DefaultLiteral (JStr ''none''))) None [] [] []"

definition metaGroup :: field where
  "metaGroup = Field Group (Some ''meta'') False False None None None None [nestedWithDefault] [] []"

definition hiddenText :: field where
  "hiddenText = Field Text (Some ''secret'') False True None None None None [] [] []"

definition plainArray :: field where
  "plainArray = Field Array (Some ''items'') False False None None None None [] [] []"

text \<open>
  An array field and a blocks field with one block \<open>hero\<close>; the rows of both have one text
  field with a default value.
\<close>

definition itemsArray :: field where
  "itemsArray =
     Field Array (Some ''items'') False False None None None None [nestedWithDefault] [] []"

definition layoutBlocks :: field where
  "layoutBlocks =
     Field Blocks (Some ''layout'') False False None None None None []
       [Block ''hero'' [nestedWithDefault]] []"

text \<open>
  An array field and a rich-text field whose read access is always denied; the editor of
  the rich-text field has one hook, which returns \<open>'a'\<close>.
\<close>

definition deniedArray :: field where
  "deniedArray =
     Field Array (Some ''items'') False False None (Some denyAll) None None [nestedWithDefault] [] []"

definition deniedRichText :: field where
  "deniedRichText =
     Field RichText (Some ''body'') False False None (Some denyAll) None
       (Some (EditorAdapter (Some [hookReturnsA]))) [] [] []"

section \<open>Properties of the property operations\<close>

lemma get_prop_JObj: "get_prop (JObj ps) k = Inr (prop_of (JObj ps) k)"
  by (simp add: get_prop_def nullish_def)

lemma typeof_undefined: "typeof v = ''undefined'' \<longleftrightarrow> v = JUndefined"
  by (cases v) simp_all

section \<open>Locale hoisting\<close>

text \<open>The \<open>switch\<close> of lines 119 to 134 as one condition on the primary value.\<close>

lemma hoistedValue_cases:
  "hoistedValue a f lv =
     (let primary = prop_of lv (locale_key (localeCode a)) in
      case fallbackLocale a of
        None \<Rightarrow> primary
      | Some fl \<Rightarrow>
          if fl \<noteq> [] \<and> Some fl \<noteq> localeCode a \<and> truthy (prop_of lv fl)
             \<and> (primary = JUndefined \<or> primary = JNull
                  \<or> ((ftype f = Text \<or> ftype f = Textarea) \<and> primary = JStr []))
          then prop_of lv fl
          else primary)"
  by (cases "ftype f") (auto simp: hoistedValue_def Let_def typeof_undefined split: option.splits)

text \<open>
  Claim C1. On an object container, locale hoisting runs exactly when flattening is
  requested, the field affects data and is localized, the slot holds a non-null object,
  the requested locale is not \<open>all\<close> and localization is configured. It then replaces
  the slot with the entry of the requested locale, except that the entry of the
  fallback locale is taken when a fallback locale is set (a non-empty string) and differs
  from the requested one, its entry is truthy, and the primary entry is \<open>undefined\<close> or
  \<open>null\<close> (any field type) or the empty string (\<open>text\<close> and \<open>textarea\<close>). Otherwise the
  container is left as it is.
\<close>

theorem locale_hoisting:
  "hoistLocalizedValue hp a f (JObj ps) =
     (let slot = prop_of (JObj ps) (field_key f);
          primary = prop_of slot (locale_key (localeCode a))
      in
      if flattenLocales a \<and> fieldAffectsData hp f \<and> localized f
         \<and> typeof slot = ''object'' \<and> slot \<noteq> JNull
         \<and> localeCode a \<noteq> Some ''all'' \<and> localization (req a)
      then
        Inr (True, JObj (update_entry (field_key f)
          (case fallbackLocale a of
             None \<Rightarrow> primary
           | Some fl \<Rightarrow>
               if fl \<noteq> [] \<and> Some fl \<noteq> localeCode a \<and> truthy (prop_of slot fl)
                  \<and> (primary = JUndefined \<or> primary = JNull
                       \<or> ((ftype f = Text \<or> ftype f = Textarea) \<and> primary = JStr []))
               then prop_of slot fl
               else primary) ps))
      else Inr (False, JObj ps))"
  unfolding hoistLocalizedValue_def shouldHoistLocalizedValue_def get_prop_JObj hoistedValue_cases
  by (simp add: Let_def del: prop_of.simps)

text \<open>
  The example of the spec: a localized text field whose \<open>en\<close> value is the empty string
  takes the \<open>de\<close> value; a field of another type keeps the empty string and takes the
  fallback only for \<open>null\<close>; a field that is not localized is left alone.
\<close>

theorem locale_hoisting_witness:
  "hoistLocalizedValue specHelpers exampleArgs
     (Field Text (Some ''title'') True False None None None None [] [] [])
     (JObj [(''title'', JObj [(''en'', JStr []), (''de'', JStr ''Hallo'')])])
   = Inr (True, JObj [(''title'', JStr ''Hallo'')])
   \<and> hoistLocalizedValue specHelpers exampleArgs
     (Field (OtherType ''select'') (Some ''title'') True False None None None None [] [] [])
     (JObj [(''title'', JObj [(''en'', JStr []), (''de'', JStr ''Hallo'')])])
   = Inr (True, JObj [(''title'', JStr [])])
   \<and> hoistLocalizedValue specHelpers exampleArgs
     (Field (OtherType ''select'') (Some ''title'') True False None None None None [] [] [])
     (JObj [(''title'', JObj [(''en'', JNull), (''de'', JStr ''Hallo'')])])
   = Inr (True, JObj [(''title'', JStr ''Hallo'')])
   \<and> hoistLocalizedValue specHelpers exampleArgs
     (Field Text (Some ''title'') False False None None None None [] [] [])
     (JObj [(''title'', JObj [(''en'', JStr []), (''de'', JStr ''Hallo'')])])
   = Inr (False, JObj [(''title'', JObj [(''en'', JStr []), (''de'', JStr ''Hallo'')])])"
  using
    locale_hoisting [of specHelpers exampleArgs
      "Field Text (Some ''title'') True False None None None None [] [] []"
      "[(''title'', JObj [(''en'', JStr []), (''de'', JStr ''Hallo'')])]"]
    locale_hoisting [of specHelpers exampleArgs
      "Field (OtherType ''select'') (Some ''title'') True False None None None None [] [] []"
      "[(''title'', JObj [(''en'', JStr []), (''de'', JStr ''Hallo'')])]"]
    locale_hoisting [of specHelpers exampleArgs
      "Field (OtherType ''select'') (Some ''title'') True False None None None None [] [] []"
      "[(''title'', JObj [(''en'', JNull), (''de'', JStr ''Hallo'')])]"]
    locale_hoisting [of specHelpers exampleArgs
      "Field Text (Some ''title'') False False None None None None [] [] []"
      "[(''title'', JObj [(''en'', JStr []), (''de'', JStr ''Hallo'')])]"]
  by (simp add: specHelpers_def exampleArgs_def field_key_def locale_key_def)

section \<open>Sanitizing a point\<close>

text \<open>
  Claim C4. For a field of type \<open>point\<close> in an object container, sanitizing writes the
  \<open>coordinates\<close> of the stored value into the slot when they are an array of exactly two
  elements, and \<open>undefined\<close> for every other stored value (no value, \<open>null\<close>, a primitive,
  an array, no \<open>coordinates\<close>, or \<open>coordinates\<close> of another shape). It never fails.
\<close>

theorem point_sanitized:
  "ftype f = Point \<Longrightarrow>
   sanitize hp f (JObj ps) =
     Inr (JObj (update_entry (field_key f)
           (case opt_prop (prop_of (JObj ps) (field_key f)) ''coordinates'' of
              JArr [x, y] \<Rightarrow> JArr [x, y]
            | _ \<Rightarrow> JUndefined) ps))"
  by (simp add: sanitize_def get_prop_JObj Let_def split: jsvalue.splits list.splits)

text \<open>
  The examples of the spec: \<open>{ coordinates: [1,2], type: 'Point' }\<close> becomes \<open>[1,2]\<close>, and
  \<open>{ coordinates: [1] }\<close> becomes \<open>undefined\<close>.
\<close>

theorem point_sanitized_witness:
  "ftype (plainField Point ''location'') = Point
   \<and> sanitize specHelpers (plainField Point ''location'')
       (JObj [(''location'',
          JObj [(''coordinates'', JArr [JNum 1, JNum 2]), (''type'', JStr ''Point'')])])
     = Inr (JObj [(''location'', JArr [JNum 1, JNum 2])])
   \<and> sanitize specHelpers (plainField Point ''location'')
       (JObj [(''location'', JObj [(''coordinates'', JArr [JNum 1])])])
     = Inr (JObj [(''location'', JUndefined)])"
  using
    point_sanitized [of "plainField Point ''location''" specHelpers
      "[(''location'',
          JObj [(''coordinates'', JArr [JNum 1, JNum 2]), (''type'', JStr ''Point'')])]"]
    point_sanitized [of "plainField Point ''location''" specHelpers
      "[(''location'', JObj [(''coordinates'', JArr [JNum 1])])]"]
  by (simp add: plainField_def field_key_def opt_prop_def nullish_def)

section \<open>The hook chain\<close>

lemma runHooks_append:
  "runHooks a f p sp (hs1 @ hs2) s =
     (case runHooks a f p sp hs1 s of Inl e \<Rightarrow> Inl e | Inr s' \<Rightarrow> runHooks a f p sp hs2 s')"
  by (induction hs1 arbitrary: s) (simp_all split: sum.splits)

text \<open>A hook on a single value: its result is written to the slot unless it is \<open>undefined\<close>.\<close>

lemma runHook_single:
  "\<not> (localized f \<and> (localeCode a = Some ''all'' \<or> \<not> flattenLocales a)) \<Longrightarrow>
   runHook a f p sp h (JObj ps) =
     Inr (JObj (let r = h a p sp (JObj ps) (prop_of (JObj ps) (field_key f))
                in if r = JUndefined then ps else update_entry (field_key f) r ps))"
  by (auto simp add: runHook_def get_prop_JObj shouldRunHookOnAllLocales_def Let_def
           simp del: prop_of.simps)

lemma runHooks_single:
  "\<not> (localized f \<and> (localeCode a = Some ''all'' \<or> \<not> flattenLocales a)) \<Longrightarrow>
   runHooks a f p sp hs (JObj ps) =
     Inr (JObj (foldl (\<lambda>cur h. let r = h a p sp (JObj cur) (prop_of (JObj cur) (field_key f))
                                in if r = JUndefined then cur else update_entry (field_key f) r cur)
                  ps hs))"
  by (induction hs arbitrary: ps) (simp_all add: runHook_single del: prop_of.simps)

lemma map_of_update_entry: "map_of (update_entry k v ps) k = Some v"
  by (induction ps) auto

lemma prop_of_update_entry: "prop_of (JObj (update_entry k v ps)) k = v"
  by (simp add: map_of_update_entry)

lemma runHook_value:
  "\<not> shouldRunHookOnAllLocales a f (prop_of (JObj ps) (field_key f)) \<Longrightarrow>
   runHook a f p sp h (JObj ps) =
     Inr (JObj (let r = h a p sp (JObj ps) (prop_of (JObj ps) (field_key f))
                in if r = JUndefined then ps else update_entry (field_key f) r ps))"
  by (simp add: runHook_def get_prop_JObj Let_def del: prop_of.simps)

lemma runHook_all_locales:
  "localized f \<and> (localeCode a = Some ''all'' \<or> \<not> flattenLocales a) \<Longrightarrow>
   prop_of (JObj ps) (field_key f) = JObj entries \<Longrightarrow>
   runHook a f p sp h (JObj ps) =
     Inr (JObj (update_entry (field_key f)
       (JObj (map (\<lambda>(l, x). (l, let r = h a p sp (JObj ps) x
                                   in if r = JUndefined then x else r)) entries)) ps))"
proof -
  have e: "hooked r x = (if r = JUndefined then x else r)" for r x
    by (simp add: hooked_def)
  assume "localized f \<and> (localeCode a = Some ''all'' \<or> \<not> flattenLocales a)"
    and "prop_of (JObj ps) (field_key f) = JObj entries"
  then show ?thesis
    by (simp add: runHook_def get_prop_JObj shouldRunHookOnAllLocales_def e Let_def
             del: prop_of.simps)
qed

lemma example_chain:
  assumes "\<not> shouldRunHookOnAllLocales a f (prop_of (JObj ps) (field_key f))"
    and "\<forall>b x y z w. h1 b x y z w = JStr ''a''"
    and "\<forall>b x y z c. h2 b x y z (JStr c) = JStr (toUpperCase c)"
  shows "runHooks a f p sp [h1, h2] (JObj ps)
           = Inr (JObj (update_entry (field_key f) (JStr ''A'')
                          (update_entry (field_key f) (JStr ''a'') ps)))"
proof -
  from assms(1,2) have 1: "runHook a f p sp h1 (JObj ps)
      = Inr (JObj (update_entry (field_key f) (JStr ''a'') ps))"
    by (simp add: runHook_value del: prop_of.simps)
  have 2: "\<not> shouldRunHookOnAllLocales a f
             (prop_of (JObj (update_entry (field_key f) (JStr ''a'') ps)) (field_key f))"
    by (simp add: prop_of_update_entry shouldRunHookOnAllLocales_def del: prop_of.simps)
  have "toUpperCase ''a'' = ''A''" by (simp add: toUpperCase_def)
  with assms(3) have 3: "runHook a f p sp h2 (JObj (update_entry (field_key f) (JStr ''a'') ps))
      = Inr (JObj (update_entry (field_key f) (JStr ''A'')
                          (update_entry (field_key f) (JStr ''a'') ps)))"
    by (simp add: runHook_value [OF 2] prop_of_update_entry del: prop_of.simps)
  from 1 3 show ?thesis by simp
qed

text \<open>
  Claim C2. With hook execution enabled, the after-read hooks of a field run in the
  order they are declared, each on the container the hooks before it have left: running
  the chain is running any front part of it and then the rest, and an error ends it.
  Where the hooks run on the single value (the field is not localized, or one locale is
  requested and flattened), the chain is a left fold over the hooks from an object
  container: each hook gets the container and the slot's value as they are then, its
  result replaces the slot when it is defined, and \<open>undefined\<close> changes nothing. Where a
  hook runs on all locales of an object value, it is called on every entry and each
  defined result replaces its entry. For the chain \<open>[h1, h2]\<close> with \<open>h1\<close> returning \<open>'a'\<close>
  and \<open>h2\<close> the upper case of its value, started on a single value, the slot ends as
  \<open>'A'\<close>. \<open>affectsDataSteps\<close> runs \<open>executeHooks\<close> first for every field that affects data.
\<close>

theorem hooks_in_declared_order:
  assumes "triggerHooks a" and "afterRead f = Some hs"
  shows "(\<forall>hs1 hs2. hs = hs1 @ hs2 \<longrightarrow>
            executeHooks a f p sp s =
              (case runHooks a f p sp hs1 s of
                 Inl e \<Rightarrow> Inl e
               | Inr s' \<Rightarrow> runHooks a f p sp hs2 s'))
       \<and> (\<not> (localized f \<and> (localeCode a = Some ''all'' \<or> \<not> flattenLocales a)) \<longrightarrow>
            executeHooks a f p sp (JObj ps) =
              Inr (JObj (foldl (\<lambda>cur h.
                     let r = h a p sp (JObj cur) (prop_of (JObj cur) (field_key f))
                     in if r = JUndefined then cur else update_entry (field_key f) r cur)
                   ps hs)))
       \<and> (\<forall>h entries. hs = [h]
              \<and> localized f \<and> (localeCode a = Some ''all'' \<or> \<not> flattenLocales a)
              \<and> prop_of (JObj ps) (field_key f) = JObj entries \<longrightarrow>
            executeHooks a f p sp (JObj ps) =
              Inr (JObj (update_entry (field_key f)
                (JObj (map (\<lambda>(l, x). (l, let r = h a p sp (JObj ps) x
                                            in if r = JUndefined then x else r)) entries)) ps)))
       \<and> (\<forall>h1 h2. hs = [h1, h2]
              \<and> \<not> shouldRunHookOnAllLocales a f (prop_of (JObj ps) (field_key f))
              \<and> (\<forall>b x y z w. h1 b x y z w = JStr ''a'')
              \<and> (\<forall>b x y z c. h2 b x y z (JStr c) = JStr (toUpperCase c)) \<longrightarrow>
            (\<exists>ps'. executeHooks a f p sp (JObj ps) = Inr (JObj ps')
                    \<and> prop_of (JObj ps') (field_key f) = JStr ''A''))"
proof (intro conjI allI impI)
  fix hs1 hs2 assume "hs = hs1 @ hs2"
  with assms show "executeHooks a f p sp s =
              (case runHooks a f p sp hs1 s of
                 Inl e \<Rightarrow> Inl e
               | Inr s' \<Rightarrow> runHooks a f p sp hs2 s')"
    by (simp add: executeHooks_def runHooks_append)
next
  assume "\<not> (localized f \<and> (localeCode a = Some ''all'' \<or> \<not> flattenLocales a))"
  with assms show "executeHooks a f p sp (JObj ps) =
              Inr (JObj (foldl (\<lambda>cur h.
                     let r = h a p sp (JObj cur) (prop_of (JObj cur) (field_key f))
                     in if r = JUndefined then cur else update_entry (field_key f) r cur)
                   ps hs))"
    by (simp add: executeHooks_def runHooks_single del: prop_of.simps)
next
  fix h entries
  assume "hs = [h] \<and> localized f \<and> (localeCode a = Some ''all'' \<or> \<not> flattenLocales a)
              \<and> prop_of (JObj ps) (field_key f) = JObj entries"
  with assms runHook_all_locales [of f a ps entries p sp h]
  show "executeHooks a f p sp (JObj ps) =
              Inr (JObj (update_entry (field_key f)
                (JObj (map (\<lambda>(l, x). (l, let r = h a p sp (JObj ps) x
                                            in if r = JUndefined then x else r)) entries)) ps))"
    by (simp add: executeHooks_def del: prop_of.simps)
next
  fix h1 h2
  assume x: "hs = [h1, h2]
              \<and> \<not> shouldRunHookOnAllLocales a f (prop_of (JObj ps) (field_key f))
              \<and> (\<forall>b x y z w. h1 b x y z w = JStr ''a'')
              \<and> (\<forall>b x y z c. h2 b x y z (JStr c) = JStr (toUpperCase c))"
  then have "runHooks a f p sp [h1, h2] (JObj ps)
           = Inr (JObj (update_entry (field_key f) (JStr ''A'')
                          (update_entry (field_key f) (JStr ''a'') ps)))"
    by (intro example_chain) blast+
  with assms x show "\<exists>ps'. executeHooks a f p sp (JObj ps) = Inr (JObj ps')
                    \<and> prop_of (JObj ps') (field_key f) = JStr ''A''"
    by (simp add: executeHooks_def prop_of_update_entry del: prop_of.simps runHooks.simps)
qed

text \<open>
  The example of the spec: with the hooks \<open>[h1, h2]\<close>, \<open>h1\<close> returning \<open>'a'\<close> and \<open>h2\<close> the
  upper case of its value, the slot ends as \<open>'A'\<close>, in the hook step and in the whole
  promise.
\<close>

theorem hooks_in_declared_order_witness:
  "triggerHooks exampleArgs
   \<and> afterRead titleWithHooks = Some [hookReturnsA, hookUpperCase]
   \<and> executeHooks exampleArgs titleWithHooks [PathKey ''title''] [''title'']
       (JObj [(''title'', JStr ''x'')])
     = Inr (JObj [(''title'', JStr ''A'')])
   \<and> promise specHelpers exampleArgs titleWithHooks 0 [] [] (JObj [(''title'', JStr ''x'')]) []
     = Inr (JObj [(''title'', JStr ''A'')], [])"
proof -
  have t: "triggerHooks exampleArgs"
    by (simp add: exampleArgs_def)
  have h: "afterRead titleWithHooks = Some [hookReturnsA, hookUpperCase]"
    by (simp add: titleWithHooks_def)
  have n: "\<not> (localized titleWithHooks
               \<and> (localeCode exampleArgs = Some ''all'' \<or> \<not> flattenLocales exampleArgs))"
    by (simp add: titleWithHooks_def)
  from hooks_in_declared_order [OF t h, where p = "[PathKey ''title'']" and sp = "[''title'']"
         and ps = "[(''title'', JStr ''x'')]"] n
  have "executeHooks exampleArgs titleWithHooks [PathKey ''title''] [''title'']
          (JObj [(''title'', JStr ''x'')])
        = Inr (JObj (foldl (\<lambda>cur h.
                     let r = h exampleArgs [PathKey ''title''] [''title''] (JObj cur)
                               (prop_of (JObj cur) (field_key titleWithHooks))
                     in if r = JUndefined then cur
                        else update_entry (field_key titleWithHooks) r cur)
                   [(''title'', JStr ''x'')] [hookReturnsA, hookUpperCase]))"
    by blast
  also have "\<dots> = Inr (JObj [(''title'', JStr ''A'')])"
    by (simp add: titleWithHooks_def field_key_def hookReturnsA_def hookUpperCase_def
          toUpperCase_def)
  finally have e: "executeHooks exampleArgs titleWithHooks [PathKey ''title''] [''title'']
          (JObj [(''title'', JStr ''x'')]) = Inr (JObj [(''title'', JStr ''A'')])" .
  have p: "promise specHelpers exampleArgs titleWithHooks 0 [] [] (JObj [(''title'', JStr ''x'')]) []
     = Inr (JObj [(''title'', JStr ''A'')], [])"
    by (simp add: exampleArgs_def specHelpers_def titleWithHooks_def hookReturnsA_def
          hookUpperCase_def toUpperCase_def field_key_def beforeTraversal_def removeHidden_def
          hoistLocalizedValue_def shouldHoistLocalizedValue_def sanitize_def
          affectsDataSteps_def executeHooks_def runHook_def shouldRunHookOnAllLocales_def
          executeAccess_def setDefaultValue_def schedulePopulation_def get_prop_def nullish_def)
  show ?thesis using t h e p by simp
qed

section \<open>Read access\<close>

text \<open>
  Claim C3 as stated fails in three ways. Where access control is not triggered (line 266
  tests \<open>triggerAccessControl\<close> first), the access function of the field returns false,
  access is not overridden, and the promise returns the container with the value still
  in it. Where access is denied to an array field, the key is deleted (line 279) and
  then written again: the promise returns the container with \<open>[]\<close> in the slot (line 413).
  Where access is denied to a rich-text field whose editor has a hook, the hook runs on
  the deleted slot and its result is written (line 680).
\<close>

theorem access_denied_removes_key_counterexample:
  "fieldAffectsData specHelpers secretWithDefault
   \<and> accessRead secretWithDefault = Some denyAll
   \<and> \<not> overrideAccess (exampleArgs \<lparr> triggerAccessControl := False \<rparr>)
   \<and> \<not> denyAll (exampleArgs \<lparr> triggerAccessControl := False \<rparr>) (JNum 1)
         (JObj [(''title'', JStr ''t''), (''secret'', JStr ''x'')])
   \<and> promise specHelpers (exampleArgs \<lparr> triggerAccessControl := False \<rparr>) secretWithDefault
        0 [] [] (JObj [(''title'', JStr ''t''), (''secret'', JStr ''x'')]) []
       = Inr (JObj [(''title'', JStr ''t''), (''secret'', JStr ''x'')], [])
   \<and> fieldAffectsData specHelpers deniedArray
   \<and> accessRead deniedArray = Some denyAll
   \<and> triggerAccessControl exampleArgs
   \<and> \<not> overrideAccess exampleArgs
   \<and> \<not> denyAll exampleArgs (JNum 1) (JObj [(''items'', JArr [JObj []]), (''n'', JNum 1)])
   \<and> promise specHelpers exampleArgs deniedArray 0 [] []
        (JObj [(''items'', JArr [JObj []]), (''n'', JNum 1)]) []
       = Inr (JObj [(''n'', JNum 1), (''items'', JArr [])], [])
   \<and> fieldAffectsData specHelpers deniedRichText
   \<and> accessRead deniedRichText = Some denyAll
   \<and> \<not> denyAll exampleArgs (JNum 1) (JObj [(''body'', JStr ''x'')])
   \<and> promise specHelpers exampleArgs deniedRichText 0 [] [] (JObj [(''body'', JStr ''x'')]) []
       = Inr (JObj [(''body'', JStr ''a'')], [])"
  by (simp add: exampleArgs_def specHelpers_def secretWithDefault_def deniedArray_def
        deniedRichText_def denyAll_def hookReturnsA_def field_key_def checkEditor_def
        runEditorHook_def shouldRunHookOnAllLocales_def
        beforeTraversal_def removeHidden_def hoistLocalizedValue_def
        shouldHoistLocalizedValue_def sanitize_def affectsDataSteps_def executeHooks_def
        executeAccess_def setDefaultValue_def schedulePopulation_def get_prop_def nullish_def)

text \<open>
  Deleting a key and writing it again appends it; a deleted key reads as \<open>undefined\<close>.
\<close>

lemma update_entry_filter:
  "update_entry k v (filter (\<lambda>e. fst e \<noteq> k) ps) = filter (\<lambda>e. fst e \<noteq> k) ps @ [(k, v)]"
  by (induction ps) auto

lemma prop_of_filter:
  "prop_of (JObj (filter (\<lambda>e. fst e \<noteq> k) ps)) k = JUndefined"
  by (induction ps) auto

lemma beforeTraversal_beforeAccess:
  "beforeTraversal hp a f p sp s q =
     (case beforeAccess hp a f p sp s of
        Inl e \<Rightarrow> Inl e
      | Inr (h, s4) \<Rightarrow>
          if fieldAffectsData hp f then
            (case executeAccess a f s4 of
               Inl e \<Rightarrow> Inl e
             | Inr (allowDefaultValue, s5) \<Rightarrow>
                 (case setDefaultValue hp a f allowDefaultValue s5 of
                    Inl e \<Rightarrow> Inl e
                  | Inr s6 \<Rightarrow> Inr (h, s6, schedulePopulation a f s6 q)))
          else Inr (h, s4, q))"
  by (simp add: beforeTraversal_def beforeAccess_def affectsDataSteps_def
           split: sum.splits prod.splits)

lemma beforeAccess_sanitized:
  "beforeAccess hp a f p sp s = Inr (h, s4) \<Longrightarrow> ftype f = RichText \<Longrightarrow> checkEditor f = None"
  by (auto simp: beforeAccess_def sanitize_def split: sum.splits prod.splits option.splits if_splits)

lemma beforeTraversal_denied:
  assumes "fieldAffectsData hp f" and "accessRead f = Some read"
    and "triggerAccessControl a" and "\<not> overrideAccess a"
    and "beforeAccess hp a f p sp s = Inr (h, JObj ps1)"
    and "get_prop (doc a) ''id'' = Inr docId" and "\<not> read a docId (JObj ps1)"
  shows "beforeTraversal hp a f p sp s q =
           Inr (h, JObj (filter (\<lambda>e. fst e \<noteq> field_key f) ps1),
                schedulePopulation a f (JObj (filter (\<lambda>e. fst e \<noteq> field_key f) ps1)) q)"
  using assms
  by (simp add: beforeTraversal_beforeAccess executeAccess_def setDefaultValue_def)

text \<open>
  Claim C3, amended. For a field that affects data and has a read-access function: when
  access control is triggered, access is not overridden, and the function returns false
  on the container that the steps before it (lines 89 to 262) have left, the steps
  before the descent end with the field's key deleted from that container and no default
  value written, whatever default the field has. The promise then returns that container
  for a field whose type has no step in the second \<open>switch\<close>. For an array or blocks field
  it returns it with \<open>[]\<close> in the slot (lines 413 and 492). For a group or a named tab the
  nested fields are traversed on a new object, and the key stays deleted. For a row, a
  collapsible, an unnamed tab and a tabs field the nested fields are traversed on the
  container without the key. For a rich-text field the hooks of the editor run on the
  container without the key and may write the slot. When access is overridden or access
  control is not triggered, the access step grants the read and leaves the container
  alone, whatever the access function is.
\<close>

theorem access_denied_removes_key:
  assumes "fieldAffectsData hp f" and "accessRead f = Some read"
    and "getFieldPaths hp f pp psp i = (p, sp)"
  shows "(triggerAccessControl a \<and> \<not> overrideAccess a
            \<and> beforeAccess hp a f p sp (JObj ps) = Inr (h, JObj ps1)
            \<and> get_prop (doc a) ''id'' = Inr docId \<and> \<not> read a docId (JObj ps1) \<longrightarrow>
          (let d = filter (\<lambda>e. fst e \<noteq> field_key f) ps1;
               q1 = schedulePopulation a f (JObj d) q
           in field_key f \<notin> fst ` set d
              \<and> beforeTraversal hp a f p sp (JObj ps) q = Inr (h, JObj d, q1)
              \<and> (ftype f \<notin> {Group, Array, Blocks, Row, Collapsible, Tab, Tabs, RichText} \<longrightarrow>
                   promise hp a f i pp psp (JObj ps) q = Inr (JObj d, q1))
              \<and> (ftype f \<in> {Array, Blocks} \<longrightarrow>
                   promise hp a f i pp psp (JObj ps) q
                     = Inr (JObj (d @ [(field_key f, JArr [])]), q1))
              \<and> (ftype f = Group \<or> (ftype f = Tab \<and> tabHasName hp f) \<longrightarrow>
                   promise hp a f i pp psp (JObj ps) q =
                     (case traverseFields hp a (subfields f) 0 p sp (JObj []) q1 of
                        Inl e \<Rightarrow> Inl e
                      | Inr (detached, q') \<Rightarrow> Inr (JObj d, q')))
              \<and> (ftype f \<in> {Row, Collapsible} \<or> (ftype f = Tab \<and> \<not> tabHasName hp f) \<longrightarrow>
                   promise hp a f i pp psp (JObj ps) q =
                     traverseFields hp a (subfields f) 0 p sp (JObj d) q1)
              \<and> (ftype f = Tabs \<longrightarrow>
                   promise hp a f i pp psp (JObj ps) q =
                     traverseFields hp a (map asTab (tabs f)) 0 p sp (JObj d) q1)
              \<and> (ftype f = RichText \<longrightarrow>
                   promise hp a f i pp psp (JObj ps) q =
                     (case editor f of
                        Some (EditorAdapter (Some hs)) \<Rightarrow>
                          if hs \<noteq> [] then
                            (case runEditorHooks a f p sp hs (JObj d) of
                               Inl e \<Rightarrow> Inl e
                             | Inr s' \<Rightarrow> Inr (s', q1))
                          else Inr (JObj d, q1)
                      | _ \<Rightarrow> Inr (JObj d, q1)))))
       \<and> (overrideAccess a \<or> \<not> triggerAccessControl a \<longrightarrow>
            executeAccess a f s = Inr (True, s))"
proof (intro conjI impI)
  assume x: "triggerAccessControl a \<and> \<not> overrideAccess a
            \<and> beforeAccess hp a f p sp (JObj ps) = Inr (h, JObj ps1)
            \<and> get_prop (doc a) ''id'' = Inr docId \<and> \<not> read a docId (JObj ps1)"
  define d where "d = filter (\<lambda>e. fst e \<noteq> field_key f) ps1"
  define q1 where "q1 = schedulePopulation a f (JObj d) q"
  from x assms(1,2) have b: "beforeTraversal hp a f p sp (JObj ps) q = Inr (h, JObj d, q1)"
    unfolding d_def q1_def by (intro beforeTraversal_denied [where read = read and docId = docId]) simp_all
  have k: "field_key f \<notin> fst ` set d"
    by (auto simp: d_def)
  have u: "prop_of (JObj d) (field_key f) = JUndefined"
    unfolding d_def by (rule prop_of_filter)
  have w: "update_entry (field_key f) v d = d @ [(field_key f, v)]" for v
    unfolding d_def by (rule update_entry_filter)
  have g: "get_prop (JObj d) (field_key f) = Inr JUndefined"
    using u by (simp add: get_prop_JObj del: prop_of.simps)
  have c: "ftype f = RichText \<Longrightarrow> checkEditor f = None"
    using x beforeAccess_sanitized by blast
  have 1: "ftype f \<notin> {Group, Array, Blocks, Row, Collapsible, Tab, Tabs, RichText} \<longrightarrow>
             promise hp a f i pp psp (JObj ps) q = Inr (JObj d, q1)"
    using b assms(3) by (cases "ftype f") (simp_all add: Let_def)
  have 2: "ftype f \<in> {Array, Blocks} \<longrightarrow>
             promise hp a f i pp psp (JObj ps) q = Inr (JObj (d @ [(field_key f, JArr [])]), q1)"
    using b assms(3) g w by (auto simp add: Let_def simp del: prop_of.simps)
  have 3: "ftype f = Group \<or> (ftype f = Tab \<and> tabHasName hp f) \<longrightarrow>
             promise hp a f i pp psp (JObj ps) q =
               (case traverseFields hp a (subfields f) 0 p sp (JObj []) q1 of
                  Inl e \<Rightarrow> Inl e
                | Inr (detached, q') \<Rightarrow> Inr (JObj d, q'))"
    using b assms(3) g by (auto simp add: Let_def simp del: prop_of.simps)
  have 4: "ftype f \<in> {Row, Collapsible} \<or> (ftype f = Tab \<and> \<not> tabHasName hp f) \<longrightarrow>
             promise hp a f i pp psp (JObj ps) q =
               traverseFields hp a (subfields f) 0 p sp (JObj d) q1"
    using b assms(3) by (auto simp add: Let_def simp del: prop_of.simps)
  have 5: "ftype f = Tabs \<longrightarrow>
             promise hp a f i pp psp (JObj ps) q =
               traverseFields hp a (map asTab (tabs f)) 0 p sp (JObj d) q1"
    using b assms(3) by (auto simp add: Let_def simp del: prop_of.simps)
  have 6: "ftype f = RichText \<longrightarrow>
             promise hp a f i pp psp (JObj ps) q =
               (case editor f of
                  Some (EditorAdapter (Some hs)) \<Rightarrow>
                    if hs \<noteq> [] then
                      (case runEditorHooks a f p sp hs (JObj d) of
                         Inl e \<Rightarrow> Inl e
                       | Inr s' \<Rightarrow> Inr (s', q1))
                    else Inr (JObj d, q1)
                | _ \<Rightarrow> Inr (JObj d, q1))"
    using b assms(3) c
    by (auto simp add: Let_def simp del: prop_of.simps split: option.splits editor_prop.splits)
  from k b 1 2 3 4 5 6
  show "let d = filter (\<lambda>e. fst e \<noteq> field_key f) ps1;
               q1 = schedulePopulation a f (JObj d) q
           in field_key f \<notin> fst ` set d
              \<and> beforeTraversal hp a f p sp (JObj ps) q = Inr (h, JObj d, q1)
              \<and> (ftype f \<notin> {Group, Array, Blocks, Row, Collapsible, Tab, Tabs, RichText} \<longrightarrow>
                   promise hp a f i pp psp (JObj ps) q = Inr (JObj d, q1))
              \<and> (ftype f \<in> {Array, Blocks} \<longrightarrow>
                   promise hp a f i pp psp (JObj ps) q
                     = Inr (JObj (d @ [(field_key f, JArr [])]), q1))
              \<and> (ftype f = Group \<or> (ftype f = Tab \<and> tabHasName hp f) \<longrightarrow>
                   promise hp a f i pp psp (JObj ps) q =
                     (case traverseFields hp a (subfields f) 0 p sp (JObj []) q1 of
                        Inl e \<Rightarrow> Inl e
                      | Inr (detached, q') \<Rightarrow> Inr (JObj d, q')))
              \<and> (ftype f \<in> {Row, Collapsible} \<or> (ftype f = Tab \<and> \<not> tabHasName hp f) \<longrightarrow>
                   promise hp a f i pp psp (JObj ps) q =
                     traverseFields hp a (subfields f) 0 p sp (JObj d) q1)
              \<and> (ftype f = Tabs \<longrightarrow>
                   promise hp a f i pp psp (JObj ps) q =
                     traverseFields hp a (map asTab (tabs f)) 0 p sp (JObj d) q1)
              \<and> (ftype f = RichText \<longrightarrow>
                   promise hp a f i pp psp (JObj ps) q =
                     (case editor f of
                        Some (EditorAdapter (Some hs)) \<Rightarrow>
                          if hs \<noteq> [] then
                            (case runEditorHooks a f p sp hs (JObj d) of
                               Inl e \<Rightarrow> Inl e
                             | Inr s' \<Rightarrow> Inr (s', q1))
                          else Inr (JObj d, q1)
                      | _ \<Rightarrow> Inr (JObj d, q1)))"
    unfolding Let_def d_def q1_def by blast
next
  assume "overrideAccess a \<or> \<not> triggerAccessControl a"
  with assms(2) show "executeAccess a f s = Inr (True, s)"
    by (auto simp: executeAccess_def)
qed

text \<open>
  A text field with a default value whose access function denies the read: the key is
  gone when the promise returns and no default is written. An array field of the same
  kind ends with \<open>[]\<close> in the slot, written after the other keys. With access overridden,
  or access control not triggered, the value stays.
\<close>

theorem access_denied_removes_key_witness:
  "fieldAffectsData specHelpers secretWithDefault
   \<and> accessRead secretWithDefault = Some denyAll
   \<and> defaultValue secretWithDefault = Some (DefaultLiteral (JStr ''none''))
   \<and> getFieldPaths specHelpers secretWithDefault [] [] 0 = ([PathKey ''secret''], [''secret''])
   \<and> triggerAccessControl exampleArgs
   \<and> \<not> overrideAccess exampleArgs
   \<and> beforeAccess specHelpers exampleArgs secretWithDefault [PathKey ''secret''] [''secret'']
        (JObj [(''title'', JStr ''t''), (''secret'', JStr ''x'')])
       = Inr (False, JObj [(''title'', JStr ''t''), (''secret'', JStr ''x'')])
   \<and> get_prop (doc exampleArgs) ''id'' = Inr (JNum 1)
   \<and> \<not> denyAll exampleArgs (JNum 1) (JObj [(''title'', JStr ''t''), (''secret'', JStr ''x'')])
   \<and> promise specHelpers exampleArgs secretWithDefault 0 [] []
        (JObj [(''title'', JStr ''t''), (''secret'', JStr ''x'')]) []
       = Inr (JObj [(''title'', JStr ''t'')], [])
   \<and> fieldAffectsData specHelpers deniedArray
   \<and> accessRead deniedArray = Some denyAll
   \<and> getFieldPaths specHelpers deniedArray [] [] 0 = ([PathKey ''items''], [''items''])
   \<and> beforeAccess specHelpers exampleArgs deniedArray [PathKey ''items''] [''items'']
        (JObj [(''items'', JArr [JObj []]), (''n'', JNum 1)])
       = Inr (False, JObj [(''items'', JArr [JObj []]), (''n'', JNum 1)])
   \<and> \<not> denyAll exampleArgs (JNum 1) (JObj [(''items'', JArr [JObj []]), (''n'', JNum 1)])
   \<and> promise specHelpers exampleArgs deniedArray 0 [] []
        (JObj [(''items'', JArr [JObj []]), (''n'', JNum 1)]) []
       = Inr (JObj [(''n'', JNum 1), (''items'', JArr [])], [])
   \<and> overrideAccess (exampleArgs \<lparr> overrideAccess := True \<rparr>)
   \<and> executeAccess (exampleArgs \<lparr> overrideAccess := True \<rparr>) secretWithDefault
        (JObj [(''title'', JStr ''t''), (''secret'', JStr ''x'')])
       = Inr (True, JObj [(''title'', JStr ''t''), (''secret'', JStr ''x'')])
   \<and> \<not> triggerAccessControl (exampleArgs \<lparr> triggerAccessControl := False \<rparr>)
   \<and> executeAccess (exampleArgs \<lparr> triggerAccessControl := False \<rparr>) secretWithDefault
        (JObj [(''title'', JStr ''t''), (''secret'', JStr ''x'')])
       = Inr (True, JObj [(''title'', JStr ''t''), (''secret'', JStr ''x'')])"
proof -
  let ?doc = "[(''title'', JStr ''t''), (''secret'', JStr ''x'')]"
  let ?rows = "[(''items'', JArr [JObj []]), (''n'', JNum 1)]"
  have a: "fieldAffectsData specHelpers secretWithDefault" "fieldAffectsData specHelpers deniedArray"
    by (simp_all add: specHelpers_def secretWithDefault_def deniedArray_def)
  have r: "accessRead secretWithDefault = Some denyAll" "accessRead deniedArray = Some denyAll"
    by (simp_all add: secretWithDefault_def deniedArray_def)
  have d: "defaultValue secretWithDefault = Some (DefaultLiteral (JStr ''none''))"
    by (simp add: secretWithDefault_def)
  have g: "getFieldPaths specHelpers secretWithDefault [] [] 0 = ([PathKey ''secret''], [''secret''])"
    "getFieldPaths specHelpers deniedArray [] [] 0 = ([PathKey ''items''], [''items''])"
    by (simp_all add: specHelpers_def secretWithDefault_def deniedArray_def)
  have t: "triggerAccessControl exampleArgs" "\<not> overrideAccess exampleArgs"
    "overrideAccess (exampleArgs \<lparr> overrideAccess := True \<rparr>)"
    "\<not> triggerAccessControl (exampleArgs \<lparr> triggerAccessControl := False \<rparr>)"
    by (simp_all add: exampleArgs_def)
  have b: "beforeAccess specHelpers exampleArgs secretWithDefault [PathKey ''secret''] [''secret'']
             (JObj ?doc) = Inr (False, JObj ?doc)"
    "beforeAccess specHelpers exampleArgs deniedArray [PathKey ''items''] [''items'']
             (JObj ?rows) = Inr (False, JObj ?rows)"
    by (simp_all add: beforeAccess_def exampleArgs_def specHelpers_def secretWithDefault_def
          deniedArray_def field_key_def removeHidden_def hoistLocalizedValue_def
          shouldHoistLocalizedValue_def sanitize_def executeHooks_def get_prop_def nullish_def)
  have i: "get_prop (doc exampleArgs) ''id'' = Inr (JNum 1)"
    by (simp add: exampleArgs_def get_prop_def nullish_def)
  have n: "\<not> denyAll exampleArgs (JNum 1) (JObj ?doc)" "\<not> denyAll exampleArgs (JNum 1) (JObj ?rows)"
    by (simp_all add: denyAll_def)
  from access_denied_removes_key [OF a(1) r(1) g(1), where a = exampleArgs and ps = ?doc
         and h = False and ?ps1.0 = ?doc and docId = "JNum 1" and q = "[]"] t(1,2) b(1) i n(1)
  have 1: "promise specHelpers exampleArgs secretWithDefault 0 [] [] (JObj ?doc) []
             = Inr (JObj [(''title'', JStr ''t'')], [])"
    by (simp add: Let_def field_key_def secretWithDefault_def schedulePopulation_def)
  from access_denied_removes_key [OF a(2) r(2) g(2), where a = exampleArgs and ps = ?rows
         and h = False and ?ps1.0 = ?rows and docId = "JNum 1" and q = "[]"] t(1,2) b(2) i n(2)
  have 2: "promise specHelpers exampleArgs deniedArray 0 [] [] (JObj ?rows) []
             = Inr (JObj [(''n'', JNum 1), (''items'', JArr [])], [])"
    by (simp add: Let_def field_key_def deniedArray_def schedulePopulation_def)
  from access_denied_removes_key [OF a(1) r(1) g(1),
         where a = "exampleArgs \<lparr> overrideAccess := True \<rparr>" and s = "JObj ?doc"] t(3)
  have 3: "executeAccess (exampleArgs \<lparr> overrideAccess := True \<rparr>) secretWithDefault (JObj ?doc)
             = Inr (True, JObj ?doc)"
    by blast
  from access_denied_removes_key [OF a(1) r(1) g(1),
         where a = "exampleArgs \<lparr> triggerAccessControl := False \<rparr>" and s = "JObj ?doc"] t(4)
  have 4: "executeAccess (exampleArgs \<lparr> triggerAccessControl := False \<rparr>) secretWithDefault (JObj ?doc)
             = Inr (True, JObj ?doc)"
    by blast
  show ?thesis using a r d g t b i n 1 2 3 4 by simp
qed

section \<open>The steps on an object container\<close>

lemma removeHidden_JObj:
  "removeHidden hp a f (JObj ps) =
     Inr (JObj (if fieldAffectsData hp f \<and> hidden f
                   \<and> prop_of (JObj ps) (field_key f) \<noteq> JUndefined \<and> \<not> showHiddenFields a
                then filter (\<lambda>e. fst e \<noteq> field_key f) ps else ps))"
  by (simp add: removeHidden_def get_prop_JObj typeof_undefined del: prop_of.simps)

lemma hoistLocalizedValue_JObj:
  "\<exists>h ps'. hoistLocalizedValue hp a f (JObj ps) = Inr (h, JObj ps')"
  by (auto simp add: hoistLocalizedValue_def shouldHoistLocalizedValue_def get_prop_JObj
           simp del: prop_of.simps)

lemma runHook_JObj:
  "(\<exists>ps'. runHook a f p sp h (JObj ps) = Inr (JObj ps')) \<or> runHook a f p sp h (JObj ps) = Inl TypeError"
  by (simp add: runHook_def get_prop_JObj Let_def del: prop_of.simps split: jsvalue.splits)

lemma runHooks_JObj:
  "(\<exists>ps'. runHooks a f p sp hs (JObj ps) = Inr (JObj ps')) \<or> runHooks a f p sp hs (JObj ps) = Inl TypeError"
proof (induction hs arbitrary: ps)
  case Nil
  then show ?case by simp
next
  case (Cons h hs)
  from runHook_JObj [of a f p sp h ps] show ?case
  proof
    assume "\<exists>ps'. runHook a f p sp h (JObj ps) = Inr (JObj ps')"
    then obtain ps' where "runHook a f p sp h (JObj ps) = Inr (JObj ps')" ..
    with Cons.IH [of ps'] show ?thesis by simp
  next
    assume "runHook a f p sp h (JObj ps) = Inl TypeError"
    then show ?thesis by simp
  qed
qed



text \<open>
  On all locales, a hook of the editor is handed the key of each entry as \<open>locale\<close>: a
  hook that returns its \<open>locale\<close> writes every key into its own entry.
\<close>

lemma runEditorHook_locale:
  "runEditorHook (exampleArgs \<lparr> flattenLocales := False \<rparr>)
     (Field RichText (Some ''body'') True False None None None (Some (EditorAdapter None)) [] [] [])
     [] [] (\<lambda>a p sp siblingData v. case localeCode a of Some l \<Rightarrow> JStr l | None \<Rightarrow> JNull)
     (JObj [(''body'', JObj [(''en'', JStr ''x''), (''de'', JStr ''y'')])])
   = Inr (JObj [(''body'', JObj [(''en'', JStr ''en''), (''de'', JStr ''de'')])])"
  by (simp add: runEditorHook_def exampleArgs_def field_key_def get_prop_def nullish_def
        shouldRunHookOnAllLocales_def hooked_def)

lemma executeHooks_JObj:
  "(\<exists>ps'. executeHooks a f p sp (JObj ps) = Inr (JObj ps')) \<or> executeHooks a f p sp (JObj ps) = Inl TypeError"
  using runHooks_JObj [of a f p sp _ ps]
  by (auto simp: executeHooks_def split: option.splits)

lemma executeAccess_JObj:
  "(\<exists>allow ps'. executeAccess a f (JObj ps) = Inr (allow, JObj ps')) \<or> executeAccess a f (JObj ps) = Inl TypeError"
  by (auto simp: executeAccess_def get_prop_def split: option.splits)

lemma setDefaultValue_JObj:
  "\<exists>ps'. setDefaultValue hp a f allow (JObj ps) = Inr (JObj ps')"
  by (auto simp: setDefaultValue_def get_prop_JObj simp del: prop_of.simps split: option.splits)

lemma affectsDataSteps_JObj:
  "(\<exists>ps' q'. affectsDataSteps hp a f p sp (JObj ps) q = Inr (JObj ps', q'))
   \<or> affectsDataSteps hp a f p sp (JObj ps) q = Inl TypeError"
proof (cases "fieldAffectsData hp f")
  case False
  then show ?thesis by (simp add: affectsDataSteps_def)
next
  case True
  from executeHooks_JObj [of a f p sp ps] show ?thesis
  proof
    assume "executeHooks a f p sp (JObj ps) = Inl TypeError"
    with True show ?thesis by (simp add: affectsDataSteps_def)
  next
    assume "\<exists>ps'. executeHooks a f p sp (JObj ps) = Inr (JObj ps')"
    then obtain ps1 where h: "executeHooks a f p sp (JObj ps) = Inr (JObj ps1)" ..
    from executeAccess_JObj [of a f ps1] show ?thesis
    proof
      assume "executeAccess a f (JObj ps1) = Inl TypeError"
      with True h show ?thesis by (simp add: affectsDataSteps_def)
    next
      assume "\<exists>allow ps'. executeAccess a f (JObj ps1) = Inr (allow, JObj ps')"
      then obtain allow ps2 where x: "executeAccess a f (JObj ps1) = Inr (allow, JObj ps2)" by blast
      from setDefaultValue_JObj [of hp a f allow ps2]
      obtain ps3 where "setDefaultValue hp a f allow (JObj ps2) = Inr (JObj ps3)" ..
      with True h x show ?thesis by (simp add: affectsDataSteps_def)
    qed
  qed
qed

text \<open>
  From an object container, the steps before the descent return an object container.
\<close>

lemma ensureTabs_JObj: "\<exists>ps'. ensureTabs hp ts (JObj ps) = Inr (JObj ps')"
  by (induction ts arbitrary: ps) (auto simp: get_prop_JObj simp del: prop_of.simps)

lemma sanitize_JObj:
  "sanitize hp f (JObj ps) = Inr s' \<Longrightarrow> \<exists>ps'. s' = JObj ps'"
  using ensureTabs_JObj [of hp "tabs f" ps]
  by (cases "ftype f")
     (auto simp: sanitize_def get_prop_JObj Let_def simp del: prop_of.simps
           split: if_splits option.splits)

lemma beforeTraversal_JObj:
  assumes "beforeTraversal hp a f p sp (JObj ps) q = Inr (h, s1, q1)"
  shows "\<exists>ps1. s1 = JObj ps1"
proof -
  obtain psa where 1: "removeHidden hp a f (JObj ps) = Inr (JObj psa)"
    by (simp add: removeHidden_JObj)
  obtain hh psb where 2: "hoistLocalizedValue hp a f (JObj psa) = Inr (hh, JObj psb)"
    using hoistLocalizedValue_JObj by blast
  from assms 1 2 obtain s3 where 3: "sanitize hp f (JObj psb) = Inr s3"
    and 4: "affectsDataSteps hp a f p sp s3 q = Inr (s1, q1)"
    by (auto simp: beforeTraversal_def split: sum.splits prod.splits)
  from sanitize_JObj [OF 3] obtain psc where "s3 = JObj psc" ..
  with 4 affectsDataSteps_JObj [of hp a f p sp psc q] show ?thesis by auto
qed

lemma checkEditor_adapter: "editor f = Some (EditorAdapter hs) \<Longrightarrow> checkEditor f = None"
  by (simp add: checkEditor_def)

section \<open>The editor of a rich-text field\<close>





section \<open>The population queue\<close>

lemma affectsDataSteps_queue:
  "affectsDataSteps hp a f p sp s q = Inr (s', q') \<Longrightarrow>
   q' = (if fieldAffectsData hp f then schedulePopulation a f s' q else q)"
  by (auto simp: affectsDataSteps_def split: if_splits sum.splits prod.splits)

lemma beforeTraversal_queue:
  "beforeTraversal hp a f p sp s q = Inr (h, s', q') \<Longrightarrow>
   q' = (if fieldAffectsData hp f then schedulePopulation a f s' q else q)"
  by (auto simp: beforeTraversal_def dest: affectsDataSteps_queue split: sum.splits prod.splits)

text \<open>
  Claim C8. When the promise of a field of type \<open>relationship\<close>, \<open>upload\<close> or \<open>join\<close> that
  affects data returns, the population queue is the queue it was given with exactly one
  task appended; the task holds the current depth, the depth, the draft flag, the
  fallback locale, the field, the locale, the access-override flag, the request, the
  show-hidden flag and the container as the promise returns it, that is after the
  hooks, the access check and the default value. For every other field, the steps of the
  field itself leave the queue as it was. A task is a record in the queue: nothing of it
  runs in the traversal.
\<close>

theorem population_scheduled:
  "(ftype f \<in> {Relationship, Upload, Join} \<and> fieldAffectsData hp f
      \<and> promise hp a f i pp psp s q = Inr (s', q') \<longrightarrow>
      q' = q @ [\<lparr> taskCurrentDepth = currentDepth a, taskDepth = depth a, taskDraft = draft a,
                  taskFallbackLocale = fallbackLocale a, taskField = f,
                  taskLocale = localeCode a, taskOverrideAccess = overrideAccess a,
                  taskReq = req a, taskShowHiddenFields = showHiddenFields a,
                  taskSiblingDoc = s' \<rparr>])
   \<and> (\<not> (ftype f \<in> {Relationship, Upload, Join} \<and> fieldAffectsData hp f)
      \<and> beforeTraversal hp a f p sp s q = Inr (h, s1, q1) \<longrightarrow> q1 = q)"
proof (intro conjI impI)
  assume x: "ftype f \<in> {Relationship, Upload, Join} \<and> fieldAffectsData hp f
      \<and> promise hp a f i pp psp s q = Inr (s', q')"
  let ?paths = "getFieldPaths hp f pp psp i"
  from x obtain hh where "beforeTraversal hp a f (fst ?paths) (snd ?paths) s q = Inr (hh, s', q')"
    by (auto simp: Let_def split: sum.splits prod.splits)
  from beforeTraversal_queue [OF this] x
  show "q' = q @ [\<lparr> taskCurrentDepth = currentDepth a, taskDepth = depth a, taskDraft = draft a,
                  taskFallbackLocale = fallbackLocale a, taskField = f,
                  taskLocale = localeCode a, taskOverrideAccess = overrideAccess a,
                  taskReq = req a, taskShowHiddenFields = showHiddenFields a,
                  taskSiblingDoc = s' \<rparr>]"
    by (auto simp: schedulePopulation_def relationshipPopulationPromise_def)
next
  assume "\<not> (ftype f \<in> {Relationship, Upload, Join} \<and> fieldAffectsData hp f)
      \<and> beforeTraversal hp a f p sp s q = Inr (h, s1, q1)"
  then show "q1 = q"
    by (auto simp: schedulePopulation_def dest!: beforeTraversal_queue split: if_splits)
qed

text \<open>A relationship field: one task is queued, holding the container with the stored id.\<close>

theorem population_scheduled_witness:
  "ftype (plainField Relationship ''author'') \<in> {Relationship, Upload, Join}
   \<and> fieldAffectsData specHelpers (plainField Relationship ''author'')
   \<and> promise specHelpers exampleArgs (plainField Relationship ''author'') 0 [] []
        (JObj [(''author'', JNum 7)]) []
       = Inr (JObj [(''author'', JNum 7)],
              [\<lparr> taskCurrentDepth = 0, taskDepth = 2, taskDraft = False,
                  taskFallbackLocale = Some ''de'',
                  taskField = plainField Relationship ''author'',
                  taskLocale = Some ''en'', taskOverrideAccess = False,
                  taskReq = \<lparr> user = JNull, localization = True \<rparr>,
                  taskShowHiddenFields = False,
                  taskSiblingDoc = JObj [(''author'', JNum 7)] \<rparr>])
   \<and> (\<exists>q. promise specHelpers exampleArgs (plainField Text ''title'') 0 [] []
            (JObj [(''title'', JStr ''t'')]) [] = Inr (JObj [(''title'', JStr ''t'')], q) \<and> q = [])"
proof -
  have t: "ftype (plainField Relationship ''author'') \<in> {Relationship, Upload, Join}"
    by (simp add: plainField_def)
  have a: "fieldAffectsData specHelpers (plainField Relationship ''author'')"
    by (simp add: plainField_def specHelpers_def)
  have "\<exists>q'. promise specHelpers exampleArgs (plainField Relationship ''author'') 0 [] []
        (JObj [(''author'', JNum 7)]) [] = Inr (JObj [(''author'', JNum 7)], q')"
    by (simp add: exampleArgs_def specHelpers_def plainField_def field_key_def
          beforeTraversal_def removeHidden_def hoistLocalizedValue_def
          shouldHoistLocalizedValue_def sanitize_def affectsDataSteps_def executeHooks_def
          executeAccess_def setDefaultValue_def schedulePopulation_def get_prop_def nullish_def)
  then obtain q' where p: "promise specHelpers exampleArgs (plainField Relationship ''author'')
        0 [] [] (JObj [(''author'', JNum 7)]) [] = Inr (JObj [(''author'', JNum 7)], q')"
    by blast
  from population_scheduled [where f = "plainField Relationship ''author''"
         and hp = specHelpers and a = exampleArgs and i = 0 and pp = "[]" and psp = "[]"
         and s = "JObj [(''author'', JNum 7)]" and q = "[]"
         and s' = "JObj [(''author'', JNum 7)]" and q' = q'] t a p
  have "q' = [\<lparr> taskCurrentDepth = 0, taskDepth = 2, taskDraft = False,
                  taskFallbackLocale = Some ''de'',
                  taskField = plainField Relationship ''author'',
                  taskLocale = Some ''en'', taskOverrideAccess = False,
                  taskReq = \<lparr> user = JNull, localization = True \<rparr>,
                  taskShowHiddenFields = False,
                  taskSiblingDoc = JObj [(''author'', JNum 7)] \<rparr>]"
    by (simp add: exampleArgs_def)
  with p have 1: "promise specHelpers exampleArgs (plainField Relationship ''author'') 0 [] []
        (JObj [(''author'', JNum 7)]) []
       = Inr (JObj [(''author'', JNum 7)],
              [\<lparr> taskCurrentDepth = 0, taskDepth = 2, taskDraft = False,
                  taskFallbackLocale = Some ''de'',
                  taskField = plainField Relationship ''author'',
                  taskLocale = Some ''en'', taskOverrideAccess = False,
                  taskReq = \<lparr> user = JNull, localization = True \<rparr>,
                  taskShowHiddenFields = False,
                  taskSiblingDoc = JObj [(''author'', JNum 7)] \<rparr>])"
    by simp
  have 2: "promise specHelpers exampleArgs (plainField Text ''title'') 0 [] []
            (JObj [(''title'', JStr ''t'')]) [] = Inr (JObj [(''title'', JStr ''t'')], [])"
    by (simp add: exampleArgs_def specHelpers_def plainField_def field_key_def
          beforeTraversal_def removeHidden_def hoistLocalizedValue_def
          shouldHoistLocalizedValue_def sanitize_def affectsDataSteps_def executeHooks_def
          executeAccess_def setDefaultValue_def schedulePopulation_def get_prop_def nullish_def)
  from t a 1 2 show ?thesis by simp
qed

section \<open>Fields that are not localized\<close>

text \<open>
  Claim C9 as stated fails: a hidden text field that is not localized, has no hook, no
  access function and no default value, and that sanitizing leaves alone, loses its value
  (lines 89 to 96); and an array field of the same kind whose slot holds a string gets
  the empty array (line 413).
\<close>

theorem non_localized_frame_counterexample:
  "\<not> localized hiddenText
   \<and> sanitize specHelpers hiddenText (JObj [(''secret'', JStr ''x'')])
       = Inr (JObj [(''secret'', JStr ''x'')])
   \<and> afterRead hiddenText = None
   \<and> accessRead hiddenText = None
   \<and> defaultValue hiddenText = None
   \<and> promise specHelpers exampleArgs hiddenText 0 [] [] (JObj [(''secret'', JStr ''x'')]) []
       = Inr (JObj [], [])
   \<and> \<not> localized plainArray
   \<and> sanitize specHelpers plainArray (JObj [(''items'', JStr ''x'')])
       = Inr (JObj [(''items'', JStr ''x'')])
   \<and> afterRead plainArray = None
   \<and> accessRead plainArray = None
   \<and> defaultValue plainArray = None
   \<and> promise specHelpers exampleArgs plainArray 0 [] [] (JObj [(''items'', JStr ''x'')]) []
       = Inr (JObj [(''items'', JArr [])], [])"
  by (simp add: exampleArgs_def specHelpers_def hiddenText_def plainArray_def field_key_def
        beforeTraversal_def removeHidden_def hoistLocalizedValue_def
        shouldHoistLocalizedValue_def sanitize_def affectsDataSteps_def executeHooks_def
        executeAccess_def setDefaultValue_def schedulePopulation_def get_prop_def nullish_def)

lemma hoistLocalizedValue_not_localized:
  "\<not> localized f \<Longrightarrow> hoistLocalizedValue hp a f (JObj ps) = Inr (False, JObj ps)"
  by (simp add: hoistLocalizedValue_def shouldHoistLocalizedValue_def get_prop_JObj)

text \<open>
  The steps before the descent, for a field that is not localized, is not removed as
  hidden, runs no hook, is not denied the read and is due no default value: they return
  what sanitizing returns.
\<close>

lemma beforeTraversal_frame:
  assumes "\<not> localized f"
    and "\<not> (fieldAffectsData hp f \<and> hidden f
             \<and> prop_of (JObj ps) (field_key f) \<noteq> JUndefined \<and> \<not> showHiddenFields a)"
    and "sanitize hp f (JObj ps) = Inr (JObj ps')"
    and "\<not> fieldAffectsData hp f \<or> afterRead f = None \<or> \<not> triggerHooks a"
    and "\<not> fieldAffectsData hp f \<or> accessRead f = None \<or> \<not> triggerAccessControl a \<or> overrideAccess a
         \<or> (\<exists>read docId. accessRead f = Some read \<and> get_prop (doc a) ''id'' = Inr docId
                \<and> read a docId (JObj ps'))"
    and "\<not> fieldAffectsData hp f \<or> defaultValue f = None
         \<or> prop_of (JObj ps') (field_key f) \<noteq> JUndefined"
  shows "beforeTraversal hp a f p sp (JObj ps) q =
           Inr (False, JObj ps',
                if fieldAffectsData hp f then schedulePopulation a f (JObj ps') q else q)"
proof -
  from assms(2) have 1: "removeHidden hp a f (JObj ps) = Inr (JObj ps)"
    by (auto simp: removeHidden_JObj)
  from assms(1) have 2: "hoistLocalizedValue hp a f (JObj ps) = Inr (False, JObj ps)"
    by (rule hoistLocalizedValue_not_localized)
  show ?thesis
  proof (cases "fieldAffectsData hp f")
    case False
    with 1 2 assms(3) show ?thesis
      by (simp add: beforeTraversal_def affectsDataSteps_def)
  next
    case True
    with assms(4) have 4: "executeHooks a f p sp (JObj ps') = Inr (JObj ps')"
      by (auto simp: executeHooks_def)
    from True assms(5) have 5: "executeAccess a f (JObj ps') = Inr (True, JObj ps')"
      by (auto simp: executeAccess_def split: option.splits)
    from True assms(6) have 6: "setDefaultValue hp a f True (JObj ps') = Inr (JObj ps')"
      by (auto simp: setDefaultValue_def get_prop_JObj typeof_undefined simp del: prop_of.simps
               split: option.splits)
    from True 1 2 assms(3) 4 5 6 show ?thesis
      by (simp add: beforeTraversal_def affectsDataSteps_def)
  qed
qed

text \<open>
  Claim C9, amended. For a field that is not localized, in an object container: when the
  field is not removed as hidden (lines 89 to 96), no hook of the field runs, read
  access is not denied and no default value is due, the steps before the descent return
  the container as sanitizing has left it. The promise then returns that container for a
  field whose type has no step in the second \<open>switch\<close>. For a rich-text field the hooks of
  the editor run on it. For an array or blocks field whose slot holds neither an array
  nor a non-null object the promise returns it with \<open>[]\<close> in the slot (lines 413 and
  492); with an array or an object in the slot, and for a group, a tab, a row, a
  collapsible and a tabs field, the promise is the traversal of the rows or of the
  nested fields, and the slot changes as that traversal returns it.
\<close>

theorem non_localized_frame:
  assumes "\<not> localized f"
    and "getFieldPaths hp f pp psp i = (p, sp)"
    and "\<not> (fieldAffectsData hp f \<and> hidden f
             \<and> prop_of (JObj ps) (field_key f) \<noteq> JUndefined \<and> \<not> showHiddenFields a)"
    and "sanitize hp f (JObj ps) = Inr (JObj ps')"
    and "\<not> fieldAffectsData hp f \<or> afterRead f = None \<or> \<not> triggerHooks a"
    and "\<not> fieldAffectsData hp f \<or> accessRead f = None \<or> \<not> triggerAccessControl a \<or> overrideAccess a
         \<or> (\<exists>read docId. accessRead f = Some read \<and> get_prop (doc a) ''id'' = Inr docId
                \<and> read a docId (JObj ps'))"
    and "\<not> fieldAffectsData hp f \<or> defaultValue f = None
         \<or> prop_of (JObj ps') (field_key f) \<noteq> JUndefined"
  shows "(let q1 = (if fieldAffectsData hp f then schedulePopulation a f (JObj ps') q else q);
              v = prop_of (JObj ps') (field_key f)
          in beforeTraversal hp a f p sp (JObj ps) q = Inr (False, JObj ps', q1)
             \<and> (ftype f \<notin> {Group, Array, Blocks, Row, Collapsible, Tab, Tabs, RichText} \<longrightarrow>
                  promise hp a f i pp psp (JObj ps) q = Inr (JObj ps', q1))
             \<and> (ftype f = RichText \<longrightarrow>
                  promise hp a f i pp psp (JObj ps) q =
                    (case editor f of
                       Some (EditorAdapter (Some hs)) \<Rightarrow>
                         if hs \<noteq> [] then
                           (case runEditorHooks a f p sp hs (JObj ps') of
                              Inl e \<Rightarrow> Inl e
                            | Inr s' \<Rightarrow> Inr (s', q1))
                         else Inr (JObj ps', q1)
                     | _ \<Rightarrow> Inr (JObj ps', q1)))
             \<and> (ftype f = Array \<longrightarrow>
                  promise hp a f i pp psp (JObj ps) q =
                    (case v of
                       JArr rows \<Rightarrow>
                         (case traverseRows hp a (subfields f) p sp 0 rows q1 of
                            Inl e \<Rightarrow> Inl e
                          | Inr (rows', q') \<Rightarrow>
                              Inr (JObj (update_entry (field_key f) (JArr rows') ps'), q'))
                     | JObj entries \<Rightarrow>
                         (case traverseLocaleRows hp a (subfields f) p sp entries q1 of
                            Inl e \<Rightarrow> Inl e
                          | Inr (entries', q') \<Rightarrow>
                              Inr (JObj (update_entry (field_key f) (JObj entries') ps'), q'))
                     | _ \<Rightarrow> Inr (JObj (update_entry (field_key f) (JArr []) ps'), q1)))
             \<and> (ftype f = Blocks \<longrightarrow>
                  promise hp a f i pp psp (JObj ps) q =
                    (case v of
                       JArr rows \<Rightarrow>
                         (case traverseBlockRows hp a (blocks f) p sp 0 rows q1 of
                            Inl e \<Rightarrow> Inl e
                          | Inr (rows', q') \<Rightarrow>
                              Inr (JObj (update_entry (field_key f) (JArr rows') ps'), q'))
                     | JObj entries \<Rightarrow>
                         (case traverseLocaleBlockRows hp a (blocks f) p sp entries q1 of
                            Inl e \<Rightarrow> Inl e
                          | Inr (entries', q') \<Rightarrow>
                              Inr (JObj (update_entry (field_key f) (JObj entries') ps'), q'))
                     | _ \<Rightarrow> Inr (JObj (update_entry (field_key f) (JArr []) ps'), q1)))
             \<and> (ftype f = Group \<or> (ftype f = Tab \<and> tabHasName hp f) \<longrightarrow>
                  promise hp a f i pp psp (JObj ps) q =
                    (if typeof v \<noteq> ''object'' then
                       (case traverseFields hp a (subfields f) 0 p sp (JObj []) q1 of
                          Inl e \<Rightarrow> Inl e
                        | Inr (detached, q') \<Rightarrow> Inr (JObj ps', q'))
                     else
                       (case traverseFields hp a (subfields f) 0 p sp v q1 of
                          Inl e \<Rightarrow> Inl e
                        | Inr (v', q') \<Rightarrow> Inr (JObj (update_entry (field_key f) v' ps'), q'))))
             \<and> (ftype f \<in> {Row, Collapsible} \<or> (ftype f = Tab \<and> \<not> tabHasName hp f) \<longrightarrow>
                  promise hp a f i pp psp (JObj ps) q =
                    traverseFields hp a (subfields f) 0 p sp (JObj ps') q1)
             \<and> (ftype f = Tabs \<longrightarrow>
                  promise hp a f i pp psp (JObj ps) q =
                    traverseFields hp a (map asTab (tabs f)) 0 p sp (JObj ps') q1))"
proof -
  define q1 where "q1 = (if fieldAffectsData hp f then schedulePopulation a f (JObj ps') q else q)"
  define v where "v = prop_of (JObj ps') (field_key f)"
  have b: "beforeTraversal hp a f p sp (JObj ps) q = Inr (False, JObj ps', q1)"
    unfolding q1_def using assms(1,3-7) by (rule beforeTraversal_frame)
  have g: "get_prop (JObj ps') (field_key f) = Inr v"
    unfolding v_def by (rule get_prop_JObj)
  from assms(4) have c: "ftype f = RichText \<Longrightarrow> checkEditor f = None"
    by (auto simp: sanitize_def split: option.splits)
  have 1: "ftype f \<notin> {Group, Array, Blocks, Row, Collapsible, Tab, Tabs, RichText} \<longrightarrow>
             promise hp a f i pp psp (JObj ps) q = Inr (JObj ps', q1)"
    using b assms(2) by (cases "ftype f") (simp_all add: Let_def)
  have 2: "ftype f = RichText \<longrightarrow>
             promise hp a f i pp psp (JObj ps) q =
               (case editor f of
                  Some (EditorAdapter (Some hs)) \<Rightarrow>
                    if hs \<noteq> [] then
                      (case runEditorHooks a f p sp hs (JObj ps') of
                         Inl e \<Rightarrow> Inl e
                       | Inr s' \<Rightarrow> Inr (s', q1))
                    else Inr (JObj ps', q1)
                | _ \<Rightarrow> Inr (JObj ps', q1))"
    using b assms(2) c
    by (auto simp add: Let_def simp del: prop_of.simps split: option.splits editor_prop.splits)
  have 3: "ftype f = Array \<longrightarrow>
             promise hp a f i pp psp (JObj ps) q =
               (case v of
                  JArr rows \<Rightarrow>
                    (case traverseRows hp a (subfields f) p sp 0 rows q1 of
                       Inl e \<Rightarrow> Inl e
                     | Inr (rows', q') \<Rightarrow>
                         Inr (JObj (update_entry (field_key f) (JArr rows') ps'), q'))
                | JObj entries \<Rightarrow>
                    (case traverseLocaleRows hp a (subfields f) p sp entries q1 of
                       Inl e \<Rightarrow> Inl e
                     | Inr (entries', q') \<Rightarrow>
                         Inr (JObj (update_entry (field_key f) (JObj entries') ps'), q'))
                | _ \<Rightarrow> Inr (JObj (update_entry (field_key f) (JArr []) ps'), q1))"
    using b assms(2) g
    by (auto simp add: Let_def simp del: prop_of.simps split: jsvalue.splits sum.splits)
  have 4: "ftype f = Blocks \<longrightarrow>
             promise hp a f i pp psp (JObj ps) q =
               (case v of
                  JArr rows \<Rightarrow>
                    (case traverseBlockRows hp a (blocks f) p sp 0 rows q1 of
                       Inl e \<Rightarrow> Inl e
                     | Inr (rows', q') \<Rightarrow>
                         Inr (JObj (update_entry (field_key f) (JArr rows') ps'), q'))
                | JObj entries \<Rightarrow>
                    (case traverseLocaleBlockRows hp a (blocks f) p sp entries q1 of
                       Inl e \<Rightarrow> Inl e
                     | Inr (entries', q') \<Rightarrow>
                         Inr (JObj (update_entry (field_key f) (JObj entries') ps'), q'))
                | _ \<Rightarrow> Inr (JObj (update_entry (field_key f) (JArr []) ps'), q1))"
    using b assms(2) g
    by (auto simp add: Let_def simp del: prop_of.simps split: jsvalue.splits sum.splits)
  have 5: "ftype f = Group \<or> (ftype f = Tab \<and> tabHasName hp f) \<longrightarrow>
             promise hp a f i pp psp (JObj ps) q =
               (if typeof v \<noteq> ''object'' then
                  (case traverseFields hp a (subfields f) 0 p sp (JObj []) q1 of
                     Inl e \<Rightarrow> Inl e
                   | Inr (detached, q') \<Rightarrow> Inr (JObj ps', q'))
                else
                  (case traverseFields hp a (subfields f) 0 p sp v q1 of
                     Inl e \<Rightarrow> Inl e
                   | Inr (v', q') \<Rightarrow> Inr (JObj (update_entry (field_key f) v' ps'), q')))"
    using b assms(2) g
    by (auto simp add: Let_def simp del: prop_of.simps split: sum.splits)
  have 6: "ftype f \<in> {Row, Collapsible} \<or> (ftype f = Tab \<and> \<not> tabHasName hp f) \<longrightarrow>
             promise hp a f i pp psp (JObj ps) q =
               traverseFields hp a (subfields f) 0 p sp (JObj ps') q1"
    using b assms(2) by (auto simp add: Let_def simp del: prop_of.simps)
  have 7: "ftype f = Tabs \<longrightarrow>
             promise hp a f i pp psp (JObj ps) q =
               traverseFields hp a (map asTab (tabs f)) 0 p sp (JObj ps') q1"
    using b assms(2) by (auto simp add: Let_def simp del: prop_of.simps)
  from b 1 2 3 4 5 6 7 show ?thesis
    unfolding Let_def q1_def v_def by blast
qed

text \<open>
  A point field is changed by sanitizing only, a blocks field whose slot holds a string
  gets \<open>[]\<close>, and a text field is returned as it was; the other key of each container
  stays.
\<close>

theorem non_localized_frame_witness:
  "\<not> localized (plainField Point ''location'')
   \<and> getFieldPaths specHelpers (plainField Point ''location'') [] [] 0
       = ([PathKey ''location''], [''location''])
   \<and> \<not> hidden (plainField Point ''location'')
   \<and> sanitize specHelpers (plainField Point ''location'')
        (JObj [(''location'', JObj [(''coordinates'', JArr [JNum 1, JNum 2]), (''type'', JStr ''Point'')]),
               (''n'', JNum 1)])
       = Inr (JObj [(''location'', JArr [JNum 1, JNum 2]), (''n'', JNum 1)])
   \<and> afterRead (plainField Point ''location'') = None
   \<and> accessRead (plainField Point ''location'') = None
   \<and> defaultValue (plainField Point ''location'') = None
   \<and> promise specHelpers exampleArgs (plainField Point ''location'') 0 [] []
        (JObj [(''location'', JObj [(''coordinates'', JArr [JNum 1, JNum 2]), (''type'', JStr ''Point'')]),
               (''n'', JNum 1)]) []
       = Inr (JObj [(''location'', JArr [JNum 1, JNum 2]), (''n'', JNum 1)], [])
   \<and> \<not> localized layoutBlocks
   \<and> getFieldPaths specHelpers layoutBlocks [] [] 0 = ([PathKey ''layout''], [''layout''])
   \<and> \<not> hidden layoutBlocks
   \<and> sanitize specHelpers layoutBlocks (JObj [(''layout'', JStr ''x''), (''n'', JNum 1)])
       = Inr (JObj [(''layout'', JStr ''x''), (''n'', JNum 1)])
   \<and> afterRead layoutBlocks = None
   \<and> accessRead layoutBlocks = None
   \<and> defaultValue layoutBlocks = None
   \<and> promise specHelpers exampleArgs layoutBlocks 0 [] []
        (JObj [(''layout'', JStr ''x''), (''n'', JNum 1)]) []
       = Inr (JObj [(''layout'', JArr []), (''n'', JNum 1)], [])
   \<and> \<not> localized (plainField Text ''title'')
   \<and> getFieldPaths specHelpers (plainField Text ''title'') [] [] 0 = ([PathKey ''title''], [''title''])
   \<and> \<not> hidden (plainField Text ''title'')
   \<and> sanitize specHelpers (plainField Text ''title'') (JObj [(''title'', JStr ''t''), (''n'', JNum 1)])
       = Inr (JObj [(''title'', JStr ''t''), (''n'', JNum 1)])
   \<and> afterRead (plainField Text ''title'') = None
   \<and> accessRead (plainField Text ''title'') = None
   \<and> defaultValue (plainField Text ''title'') = None
   \<and> promise specHelpers exampleArgs (plainField Text ''title'') 0 [] []
        (JObj [(''title'', JStr ''t''), (''n'', JNum 1)]) []
       = Inr (JObj [(''title'', JStr ''t''), (''n'', JNum 1)], [])"
proof -
  let ?point = "plainField Point ''location''" and ?text = "plainField Text ''title''"
  let ?geo = "[(''location'', JObj [(''coordinates'', JArr [JNum 1, JNum 2]), (''type'', JStr ''Point'')]),
               (''n'', JNum 1)]"
  let ?geo' = "[(''location'', JArr [JNum 1, JNum 2]), (''n'', JNum 1)]"
  let ?lay = "[(''layout'', JStr ''x''), (''n'', JNum 1)]"
  let ?doc = "[(''title'', JStr ''t''), (''n'', JNum 1)]"
  have l: "\<not> localized ?point" "\<not> localized layoutBlocks" "\<not> localized ?text"
    by (simp_all add: plainField_def layoutBlocks_def)
  have g: "getFieldPaths specHelpers ?point [] [] 0 = ([PathKey ''location''], [''location''])"
    "getFieldPaths specHelpers layoutBlocks [] [] 0 = ([PathKey ''layout''], [''layout''])"
    "getFieldPaths specHelpers ?text [] [] 0 = ([PathKey ''title''], [''title''])"
    by (simp_all add: specHelpers_def plainField_def layoutBlocks_def)
  have h: "\<not> hidden ?point" "\<not> hidden layoutBlocks" "\<not> hidden ?text"
    by (simp_all add: plainField_def layoutBlocks_def)
  have s: "sanitize specHelpers ?point (JObj ?geo) = Inr (JObj ?geo')"
    "sanitize specHelpers layoutBlocks (JObj ?lay) = Inr (JObj ?lay)"
    "sanitize specHelpers ?text (JObj ?doc) = Inr (JObj ?doc)"
    by (simp_all add: sanitize_def plainField_def layoutBlocks_def field_key_def get_prop_def
          nullish_def opt_prop_def canonical_index_def digit_of_def)
  have n: "afterRead ?point = None" "accessRead ?point = None" "defaultValue ?point = None"
    "afterRead layoutBlocks = None" "accessRead layoutBlocks = None" "defaultValue layoutBlocks = None"
    "afterRead ?text = None" "accessRead ?text = None" "defaultValue ?text = None"
    by (simp_all add: plainField_def layoutBlocks_def)
  from non_localized_frame [OF l(1) g(1) _ s(1), where a = exampleArgs and q = "[]"] h(1) n(1-3)
  have 1: "promise specHelpers exampleArgs ?point 0 [] [] (JObj ?geo) [] = Inr (JObj ?geo', [])"
    by (simp add: Let_def plainField_def schedulePopulation_def)
  from non_localized_frame [OF l(2) g(2) _ s(2), where a = exampleArgs and q = "[]"] h(2) n(4-6)
  have 2: "promise specHelpers exampleArgs layoutBlocks 0 [] [] (JObj ?lay) []
             = Inr (JObj [(''layout'', JArr []), (''n'', JNum 1)], [])"
    by (simp add: Let_def layoutBlocks_def field_key_def schedulePopulation_def)
  from non_localized_frame [OF l(3) g(3) _ s(3), where a = exampleArgs and q = "[]"] h(3) n(7-9)
  have 3: "promise specHelpers exampleArgs ?text 0 [] [] (JObj ?doc) [] = Inr (JObj ?doc, [])"
    by (simp add: Let_def plainField_def schedulePopulation_def)
  show ?thesis using l g h s n 1 2 3 by simp
qed

section \<open>A group or named tab whose slot is not an object\<close>

text \<open>
  Claim C10. For a \<open>group\<close> field or a named \<open>tab\<close> field whose slot, when the promise
  descends, holds a value that is not of type \<open>object\<close>: the nested fields are traversed
  on a new empty object, and of that traversal only the population queue and an error
  are kept. The container the promise returns is the container as it was before the
  descent, with the same value in the slot.
\<close>

theorem detached_container:
  assumes "ftype f = Group \<or> (ftype f = Tab \<and> tabHasName hp f)"
    and "beforeTraversal hp a f (fst (getFieldPaths hp f pp psp i))
           (snd (getFieldPaths hp f pp psp i)) s q = Inr (h, s1, q1)"
    and "get_prop s1 (field_key f) = Inr v"
    and "typeof v \<noteq> ''object''"
  shows "promise hp a f i pp psp s q =
           (case traverseFields hp a (subfields f) 0 (fst (getFieldPaths hp f pp psp i))
                   (snd (getFieldPaths hp f pp psp i)) (JObj []) q1 of
              Inl e \<Rightarrow> Inl e
            | Inr (detached, q') \<Rightarrow> Inr (s1, q'))
         \<and> (\<forall>s' q'. promise hp a f i pp psp s q = Inr (s', q') \<longrightarrow>
                s' = s1 \<and> get_prop s' (field_key f) = Inr v)"
proof -
  from assms have e: "promise hp a f i pp psp s q =
           (case traverseFields hp a (subfields f) 0 (fst (getFieldPaths hp f pp psp i))
                   (snd (getFieldPaths hp f pp psp i)) (JObj []) q1 of
              Inl e \<Rightarrow> Inl e
            | Inr (detached, q') \<Rightarrow> Inr (s1, q'))"
    by (auto simp: Let_def)
  with assms(3) show ?thesis
    by (auto split: sum.splits prod.splits)
qed

text \<open>
  A group whose slot holds a string: the nested field's default is written into the new
  object and is not in the result.
\<close>

theorem detached_container_witness:
  "ftype metaGroup = Group
   \<and> beforeTraversal specHelpers exampleArgs metaGroup
       (fst (getFieldPaths specHelpers metaGroup [] [] 0))
       (snd (getFieldPaths specHelpers metaGroup [] [] 0))
       (JObj [(''meta'', JStr ''oops'')]) [] = Inr (False, JObj [(''meta'', JStr ''oops'')], [])
   \<and> get_prop (JObj [(''meta'', JStr ''oops'')]) (field_key metaGroup) = Inr (JStr ''oops'')
   \<and> typeof (JStr ''oops'') \<noteq> ''object''
   \<and> traverseFields specHelpers exampleArgs (subfields metaGroup) 0 [PathKey ''meta''] [''meta'']
       (JObj []) [] = Inr (JObj [(''summary'', JStr ''none'')], [])
   \<and> promise specHelpers exampleArgs metaGroup 0 [] [] (JObj [(''meta'', JStr ''oops'')]) []
       = Inr (JObj [(''meta'', JStr ''oops'')], [])"
proof -
  have t: "ftype metaGroup = Group \<or> (ftype metaGroup = Tab \<and> tabHasName specHelpers metaGroup)"
    by (simp add: metaGroup_def)
  have b: "beforeTraversal specHelpers exampleArgs metaGroup
       (fst (getFieldPaths specHelpers metaGroup [] [] 0))
       (snd (getFieldPaths specHelpers metaGroup [] [] 0))
       (JObj [(''meta'', JStr ''oops'')]) [] = Inr (False, JObj [(''meta'', JStr ''oops'')], [])"
    by (simp add: exampleArgs_def specHelpers_def metaGroup_def field_key_def
          beforeTraversal_def removeHidden_def hoistLocalizedValue_def
          shouldHoistLocalizedValue_def sanitize_def affectsDataSteps_def executeHooks_def
          executeAccess_def setDefaultValue_def schedulePopulation_def get_prop_def nullish_def)
  have g: "get_prop (JObj [(''meta'', JStr ''oops'')]) (field_key metaGroup) = Inr (JStr ''oops'')"
    by (simp add: metaGroup_def field_key_def get_prop_def nullish_def)
  have o: "typeof (JStr ''oops'') \<noteq> ''object''"
    by simp
  have n: "traverseFields specHelpers exampleArgs (subfields metaGroup) 0 [PathKey ''meta''] [''meta'']
       (JObj []) [] = Inr (JObj [(''summary'', JStr ''none'')], [])"
    by (simp add: exampleArgs_def specHelpers_def metaGroup_def nestedWithDefault_def field_key_def
          beforeTraversal_def removeHidden_def hoistLocalizedValue_def
          shouldHoistLocalizedValue_def sanitize_def affectsDataSteps_def executeHooks_def
          executeAccess_def setDefaultValue_def schedulePopulation_def get_prop_def nullish_def)
  have p: "fst (getFieldPaths specHelpers metaGroup [] [] 0) = [PathKey ''meta'']"
     "snd (getFieldPaths specHelpers metaGroup [] [] 0) = [''meta'']"
    by (simp_all add: specHelpers_def metaGroup_def)
  from detached_container [OF t b g o] n p
  have "promise specHelpers exampleArgs metaGroup 0 [] [] (JObj [(''meta'', JStr ''oops'')]) []
       = Inr (JObj [(''meta'', JStr ''oops'')], [])"
    by simp
  with b g o n show ?thesis by (simp add: metaGroup_def)
qed

section \<open>The loops over rows\<close>

text \<open>The definitions that evaluate the examples.\<close>

lemmas example_defs =
  exampleArgs_def specHelpers_def plainField_def nestedWithDefault_def field_key_def
  beforeTraversal_def removeHidden_def hoistLocalizedValue_def shouldHoistLocalizedValue_def
  sanitize_def affectsDataSteps_def executeHooks_def executeAccess_def setDefaultValue_def
  schedulePopulation_def get_prop_def nullish_def rowOrEmpty_def

text \<open>
  What the loop over the rows of an array returns: one row per row, and a chain of queue
  states, each row traversed from the queue the row before it has left.
\<close>

lemma traverseRows_Cons_result:
  assumes "traverseRows hp a fs p sp i (row # rest) q = Inr (rows', q')"
  obtains r q1 rest' where
    "traverseFields hp a fs 0 (p @ [PathIndex i]) sp (rowOrEmpty row) q = Inr (r, q1)"
    "traverseRows hp a fs p sp (Suc i) rest q1 = Inr (rest', q')"
    "rows' = (if truthy row then r else row) # rest'"
  using assms by (auto split: sum.splits prod.splits)

lemma traverseRows_chain:
  "traverseRows hp a fs p sp i rows q = Inr (rows', q') \<Longrightarrow>
   \<exists>qs. length qs = Suc (length rows) \<and> qs ! 0 = q \<and> qs ! length rows = q'
        \<and> length rows' = length rows
        \<and> (\<forall>j<length rows. \<exists>r.
              traverseFields hp a fs 0 (p @ [PathIndex (i + j)]) sp (rowOrEmpty (rows ! j)) (qs ! j)
                = Inr (r, qs ! Suc j)
              \<and> rows' ! j = (if truthy (rows ! j) then r else rows ! j))"
proof (induction rows arbitrary: i q rows')
  case Nil
  then show ?case by (auto intro: exI [of _ "[q]"])
next
  case (Cons row rest)
  from Cons.prems obtain r q1 rest' where
    1: "traverseFields hp a fs 0 (p @ [PathIndex i]) sp (rowOrEmpty row) q = Inr (r, q1)"
    and 2: "traverseRows hp a fs p sp (Suc i) rest q1 = Inr (rest', q')"
    and 3: "rows' = (if truthy row then r else row) # rest'"
    by (rule traverseRows_Cons_result)
  from Cons.IH [OF 2] obtain qs where
    l: "length qs = Suc (length rest)" and z: "qs ! 0 = q1" and e: "qs ! length rest = q'"
    and n: "length rest' = length rest"
    and s: "\<forall>j<length rest. \<exists>r.
              traverseFields hp a fs 0 (p @ [PathIndex (Suc i + j)]) sp (rowOrEmpty (rest ! j)) (qs ! j)
                = Inr (r, qs ! Suc j)
              \<and> rest' ! j = (if truthy (rest ! j) then r else rest ! j)"
    by blast
  have "\<forall>j<length (row # rest). \<exists>r.
              traverseFields hp a fs 0 (p @ [PathIndex (i + j)]) sp (rowOrEmpty ((row # rest) ! j))
                ((q # qs) ! j) = Inr (r, (q # qs) ! Suc j)
              \<and> rows' ! j = (if truthy ((row # rest) ! j) then r else (row # rest) ! j)"
  proof (intro allI impI)
    fix j assume j: "j < length (row # rest)"
    show "\<exists>r. traverseFields hp a fs 0 (p @ [PathIndex (i + j)]) sp (rowOrEmpty ((row # rest) ! j))
                ((q # qs) ! j) = Inr (r, (q # qs) ! Suc j)
              \<and> rows' ! j = (if truthy ((row # rest) ! j) then r else (row # rest) ! j)"
    proof (cases j)
      case 0
      with 1 3 z show ?thesis by simp
    next
      case (Suc k)
      with j have "k < length rest" by simp
      with s obtain r' where
        "traverseFields hp a fs 0 (p @ [PathIndex (Suc i + k)]) sp (rowOrEmpty (rest ! k)) (qs ! k)
           = Inr (r', qs ! Suc k)"
        and "rest' ! k = (if truthy (rest ! k) then r' else rest ! k)"
        by blast
      with Suc 3 show ?thesis by (intro exI [of _ r']) simp
    qed
  qed
  with l z e n 3 show ?case
    by (intro exI [of _ "q # qs"]) simp
qed

lemma traverseLocaleRows_skip:
  "\<not> isArray (snd entry) \<Longrightarrow>
   traverseLocaleRows hp a fs p sp (entry # rest) q =
     (case traverseLocaleRows hp a fs p sp rest q of
        Inl e \<Rightarrow> Inl e
      | Inr (rest', q') \<Rightarrow> Inr (entry # rest', q'))"
  by (cases "snd entry") simp_all

lemma traverseLocaleRows_entries:
  "traverseLocaleRows hp a fs p sp entries q = Inr (entries', q') \<Longrightarrow>
   map fst entries' = map fst entries
   \<and> (\<forall>k<length entries.
         (\<forall>rows. snd (entries ! k) = JArr rows \<longrightarrow>
            (\<exists>rows' qa qb. traverseRows hp a fs p sp 0 rows qa = Inr (rows', qb)
               \<and> snd (entries' ! k) = JArr rows'))
         \<and> (\<not> isArray (snd (entries ! k)) \<longrightarrow> snd (entries' ! k) = snd (entries ! k)))"
proof (induction entries arbitrary: q entries')
  case Nil
  then show ?case by simp
next
  case (Cons entry rest)
  show ?case
  proof (cases "isArray (snd entry)")
    case True
    then obtain localeRows where a: "snd entry = JArr localeRows"
      by (cases "snd entry") simp_all
    with Cons.prems obtain localeRows' q1 rest' where
      1: "traverseRows hp a fs p sp 0 localeRows q = Inr (localeRows', q1)"
      and 2: "traverseLocaleRows hp a fs p sp rest q1 = Inr (rest', q')"
      and 3: "entries' = (fst entry, JArr localeRows') # rest'"
      by (auto split: sum.splits prod.splits)
    from Cons.IH [OF 2] 1 3 a show ?thesis
      by (auto simp: nth_Cons split: nat.splits)
  next
    case False
    from Cons.prems have
      "(case traverseLocaleRows hp a fs p sp rest q of
          Inl e \<Rightarrow> Inl e
        | Inr (rest', q') \<Rightarrow> Inr (entry # rest', q')) = Inr (entries', q')"
      unfolding traverseLocaleRows_skip [OF False] .
    then obtain rest' where
      2: "traverseLocaleRows hp a fs p sp rest q = Inr (rest', q')" and 3: "entries' = entry # rest'"
      by (auto split: sum.splits prod.splits)
    from Cons.IH [OF 2] 3 False show ?thesis
      by (auto simp: nth_Cons split: nat.splits)
  qed
qed

text \<open>
  A row whose \<open>blockType\<close> is the slug of a block is an object, so \<open>row || {}\<close> is the row.
\<close>

lemma canonical_index_blockType: "canonical_index ''blockType'' = None"
  by (simp add: canonical_index_def digit_of_def)

lemma blockType_of_object:
  "prop_of row ''blockType'' = JStr sl \<Longrightarrow> truthy row \<and> rowOrEmpty row = row"
  by (cases row) (simp_all add: canonical_index_blockType rowOrEmpty_def)

lemma find_block_slug:
  "find (\<lambda>b. JStr (slug b) = v) bs = Some b \<Longrightarrow> v = JStr (slug b)"
  by (auto simp: find_Some_iff)

text \<open>When the search returns, it has found the first block with the row's \<open>blockType\<close>.\<close>

lemma findBlock_find:
  "findBlock bs row = Inr r \<Longrightarrow> r = find (\<lambda>b. JStr (slug b) = prop_of row ''blockType'') bs"
proof (induction bs)
  case Nil
  then show ?case by simp
next
  case (Cons c bs)
  from Cons.prems have "get_prop row ''blockType'' = Inr (prop_of row ''blockType'')"
    by (auto simp: get_prop_def split: if_splits sum.splits)
  with Cons show ?case by (auto split: if_splits)
qed

lemma traverseBlockRows_chain:
  "traverseBlockRows hp a bs p sp i rows q = Inr (rows', q') \<Longrightarrow>
   \<exists>qs. length qs = Suc (length rows) \<and> qs ! 0 = q \<and> qs ! length rows = q'
        \<and> length rows' = length rows
        \<and> (\<forall>j<length rows.
              (find (\<lambda>b. JStr (slug b) = prop_of (rows ! j) ''blockType'') bs = None \<longrightarrow>
                 rows' ! j = rows ! j \<and> qs ! Suc j = qs ! j)
              \<and> (\<forall>b. find (\<lambda>b. JStr (slug b) = prop_of (rows ! j) ''blockType'') bs = Some b \<longrightarrow>
                 traverseFields hp a (blockFields b) 0 (p @ [PathIndex (i + j)]) sp (rows ! j) (qs ! j)
                   = Inr (rows' ! j, qs ! Suc j)))"
proof (induction rows arbitrary: i q rows')
  case Nil
  then show ?case by (auto intro: exI [of _ "[q]"])
next
  case (Cons row rest)
  let ?found = "find (\<lambda>b. JStr (slug b) = prop_of row ''blockType'') bs"
  from Cons.prems obtain r where "findBlock bs row = Inr r"
    by (auto split: sum.splits)
  with findBlock_find [OF this] have g: "findBlock bs row = Inr ?found"
    by simp
  show ?case
  proof (cases ?found)
    case None
    with Cons.prems g obtain rest' where
      2: "traverseBlockRows hp a bs p sp (Suc i) rest q = Inr (rest', q')"
      and 3: "rows' = row # rest'"
      by (auto split: sum.splits prod.splits)
    from Cons.IH [OF 2] obtain qs where
      l: "length qs = Suc (length rest)" and z: "qs ! 0 = q" and e: "qs ! length rest = q'"
      and n: "length rest' = length rest"
      and s: "\<forall>j<length rest.
              (find (\<lambda>b. JStr (slug b) = prop_of (rest ! j) ''blockType'') bs = None \<longrightarrow>
                 rest' ! j = rest ! j \<and> qs ! Suc j = qs ! j)
              \<and> (\<forall>b. find (\<lambda>b. JStr (slug b) = prop_of (rest ! j) ''blockType'') bs = Some b \<longrightarrow>
                 traverseFields hp a (blockFields b) 0 (p @ [PathIndex (Suc i + j)]) sp (rest ! j) (qs ! j)
                   = Inr (rest' ! j, qs ! Suc j))"
      by blast
    from l z e n s 3 None show ?thesis
      by (intro exI [of _ "q # qs"]) (auto simp: nth_Cons split: nat.splits)
  next
    case (Some b)
    then have "prop_of row ''blockType'' = JStr (slug b)"
      by (rule find_block_slug)
    then have t: "truthy row" "rowOrEmpty row = row"
      using blockType_of_object by blast+
    with Cons.prems g Some obtain r q1 rest' where
      1: "traverseFields hp a (blockFields b) 0 (p @ [PathIndex i]) sp row q = Inr (r, q1)"
      and 2: "traverseBlockRows hp a bs p sp (Suc i) rest q1 = Inr (rest', q')"
      and 3: "rows' = r # rest'"
      by (auto split: sum.splits prod.splits)
    from Cons.IH [OF 2] obtain qs where
      l: "length qs = Suc (length rest)" and z: "qs ! 0 = q1" and e: "qs ! length rest = q'"
      and n: "length rest' = length rest"
      and s: "\<forall>j<length rest.
              (find (\<lambda>b. JStr (slug b) = prop_of (rest ! j) ''blockType'') bs = None \<longrightarrow>
                 rest' ! j = rest ! j \<and> qs ! Suc j = qs ! j)
              \<and> (\<forall>b. find (\<lambda>b. JStr (slug b) = prop_of (rest ! j) ''blockType'') bs = Some b \<longrightarrow>
                 traverseFields hp a (blockFields b) 0 (p @ [PathIndex (Suc i + j)]) sp (rest ! j) (qs ! j)
                   = Inr (rest' ! j, qs ! Suc j))"
      by blast
    from l z e n s 1 3 Some show ?thesis
      by (intro exI [of _ "q # qs"]) (auto simp: nth_Cons split: nat.splits)
  qed
qed

text \<open>
  A blocks field without blocks leaves every row as it is, also a row that is \<open>null\<close>:
  the search never reads \<open>row.blockType\<close>.
\<close>

lemma traverseBlockRows_no_blocks:
  "traverseBlockRows hp a [] p sp i rows q = Inr (rows, q)"
  by (induction rows arbitrary: i) simp_all

lemma traverseLocaleBlockRows_skip:
  "\<not> isArray (snd entry) \<Longrightarrow>
   traverseLocaleBlockRows hp a bs p sp (entry # rest) q =
     (case traverseLocaleBlockRows hp a bs p sp rest q of
        Inl e \<Rightarrow> Inl e
      | Inr (rest', q') \<Rightarrow> Inr (entry # rest', q'))"
  by (cases "snd entry") simp_all

lemma traverseLocaleBlockRows_entries:
  "traverseLocaleBlockRows hp a bs p sp entries q = Inr (entries', q') \<Longrightarrow>
   map fst entries' = map fst entries
   \<and> (\<forall>k<length entries.
         (\<forall>rows. snd (entries ! k) = JArr rows \<longrightarrow>
            (\<exists>rows' qa qb. traverseBlockRows hp a bs p sp 0 rows qa = Inr (rows', qb)
               \<and> snd (entries' ! k) = JArr rows'))
         \<and> (\<not> isArray (snd (entries ! k)) \<longrightarrow> snd (entries' ! k) = snd (entries ! k)))"
proof (induction entries arbitrary: q entries')
  case Nil
  then show ?case by simp
next
  case (Cons entry rest)
  show ?case
  proof (cases "isArray (snd entry)")
    case True
    then obtain localeRows where a: "snd entry = JArr localeRows"
      by (cases "snd entry") simp_all
    with Cons.prems obtain localeRows' q1 rest' where
      1: "traverseBlockRows hp a bs p sp 0 localeRows q = Inr (localeRows', q1)"
      and 2: "traverseLocaleBlockRows hp a bs p sp rest q1 = Inr (rest', q')"
      and 3: "entries' = (fst entry, JArr localeRows') # rest'"
      by (auto split: sum.splits prod.splits)
    from Cons.IH [OF 2] 1 3 a show ?thesis
      by (auto simp: nth_Cons split: nat.splits)
  next
    case False
    from Cons.prems have
      "(case traverseLocaleBlockRows hp a bs p sp rest q of
          Inl e \<Rightarrow> Inl e
        | Inr (rest', q') \<Rightarrow> Inr (entry # rest', q')) = Inr (entries', q')"
      unfolding traverseLocaleBlockRows_skip [OF False] .
    then obtain rest' where
      2: "traverseLocaleBlockRows hp a bs p sp rest q = Inr (rest', q')" and 3: "entries' = entry # rest'"
      by (auto split: sum.splits prod.splits)
    from Cons.IH [OF 2] 3 False show ?thesis
      by (auto simp: nth_Cons split: nat.splits)
  qed
qed

section \<open>Array fields\<close>

text \<open>
  Claim C5. For a field of type \<open>array\<close> whose container is an object when the promise
  descends (as it is whenever the promise started on an object, \<open>beforeTraversal_JObj\<close>):
  if the slot holds a sequence, the promise is the loop over its rows and puts the rows
  the loop returns back in the slot; if it holds a non-array object and the value was not
  hoisted, the promise is the loop over the entries of that object; in every other case
  (the slot is not an array, and it is not an object, or \<open>null\<close>, or was hoisted) the slot
  becomes the empty array and nothing else changes. The loop over rows traverses
  row \<open>j\<close> with the sub-fields of the field, the path of the field with \<open>j\<close> appended and the
  schema path of the field; a falsy row is traversed as a new empty object and stays as it
  is. The loop over entries runs the loop over rows, from index 0 and with the same path
  and schema path, on every entry that is an array, and leaves every other entry alone.
\<close>

theorem array_traversal:
  assumes "ftype f = Array"
    and "(fieldPath, fieldSchemaPath) = getFieldPaths hp f pp psp i"
    and "beforeTraversal hp a f fieldPath fieldSchemaPath s q = Inr (hoisted, JObj ps1, q1)"
  shows
    "(\<forall>rows. prop_of (JObj ps1) (field_key f) = JArr rows \<longrightarrow>
        promise hp a f i pp psp s q =
          (case traverseRows hp a (subfields f) fieldPath fieldSchemaPath 0 rows q1 of
             Inl e \<Rightarrow> Inl e
           | Inr (rows', q') \<Rightarrow> Inr (JObj (update_entry (field_key f) (JArr rows') ps1), q')))
     \<and> (\<forall>entries. prop_of (JObj ps1) (field_key f) = JObj entries \<and> \<not> hoisted \<longrightarrow>
        promise hp a f i pp psp s q =
          (case traverseLocaleRows hp a (subfields f) fieldPath fieldSchemaPath entries q1 of
             Inl e \<Rightarrow> Inl e
           | Inr (entries', q') \<Rightarrow>
               Inr (JObj (update_entry (field_key f) (JObj entries') ps1), q')))
     \<and> (\<not> isArray (prop_of (JObj ps1) (field_key f))
          \<and> (hoisted \<or> typeof (prop_of (JObj ps1) (field_key f)) \<noteq> ''object''
               \<or> prop_of (JObj ps1) (field_key f) = JNull) \<longrightarrow>
        promise hp a f i pp psp s q =
          Inr (JObj (update_entry (field_key f) (JArr []) ps1), q1))
     \<and> (\<forall>rows q0 rows' q'.
          traverseRows hp a (subfields f) fieldPath fieldSchemaPath 0 rows q0 = Inr (rows', q') \<longrightarrow>
          (\<exists>qs. length qs = Suc (length rows) \<and> qs ! 0 = q0 \<and> qs ! length rows = q'
             \<and> length rows' = length rows
             \<and> (\<forall>j<length rows. \<exists>r.
                   traverseFields hp a (subfields f) 0 (fieldPath @ [PathIndex j]) fieldSchemaPath
                     (rowOrEmpty (rows ! j)) (qs ! j) = Inr (r, qs ! Suc j)
                   \<and> rows' ! j = (if truthy (rows ! j) then r else rows ! j))))
     \<and> (\<forall>entries q0 entries' q'.
          traverseLocaleRows hp a (subfields f) fieldPath fieldSchemaPath entries q0
            = Inr (entries', q') \<longrightarrow>
          map fst entries' = map fst entries
          \<and> (\<forall>k<length entries.
                (\<forall>rows. snd (entries ! k) = JArr rows \<longrightarrow>
                   (\<exists>rows' qa qb.
                      traverseRows hp a (subfields f) fieldPath fieldSchemaPath 0 rows qa
                        = Inr (rows', qb)
                      \<and> snd (entries' ! k) = JArr rows'))
                \<and> (\<not> isArray (snd (entries ! k)) \<longrightarrow>
                     snd (entries' ! k) = snd (entries ! k))))"
proof -
  from assms(2) have p: "fst (getFieldPaths hp f pp psp i) = fieldPath"
    "snd (getFieldPaths hp f pp psp i) = fieldSchemaPath"
    by (metis fst_conv, metis snd_conv)
  have g: "get_prop (JObj ps1) (field_key f) = Inr (prop_of (JObj ps1) (field_key f))"
    by (rule get_prop_JObj)
  have 1: "\<forall>rows. prop_of (JObj ps1) (field_key f) = JArr rows \<longrightarrow>
        promise hp a f i pp psp s q =
          (case traverseRows hp a (subfields f) fieldPath fieldSchemaPath 0 rows q1 of
             Inl e \<Rightarrow> Inl e
           | Inr (rows', q') \<Rightarrow> Inr (JObj (update_entry (field_key f) (JArr rows') ps1), q'))"
    using assms(1,3) p g
    by (auto simp add: Let_def simp del: prop_of.simps split: sum.splits)
  have 2: "\<forall>entries. prop_of (JObj ps1) (field_key f) = JObj entries \<and> \<not> hoisted \<longrightarrow>
        promise hp a f i pp psp s q =
          (case traverseLocaleRows hp a (subfields f) fieldPath fieldSchemaPath entries q1 of
             Inl e \<Rightarrow> Inl e
           | Inr (entries', q') \<Rightarrow>
               Inr (JObj (update_entry (field_key f) (JObj entries') ps1), q'))"
    using assms(1,3) p g
    by (auto simp add: Let_def simp del: prop_of.simps split: sum.splits)
  have 3: "\<not> isArray (prop_of (JObj ps1) (field_key f))
          \<and> (hoisted \<or> typeof (prop_of (JObj ps1) (field_key f)) \<noteq> ''object''
               \<or> prop_of (JObj ps1) (field_key f) = JNull) \<longrightarrow>
        promise hp a f i pp psp s q =
          Inr (JObj (update_entry (field_key f) (JArr []) ps1), q1)"
    using assms(1,3) p g
    by (cases "prop_of (JObj ps1) (field_key f)")
       (auto simp add: Let_def simp del: prop_of.simps)
  have 4: "\<forall>rows q0 rows' q'.
          traverseRows hp a (subfields f) fieldPath fieldSchemaPath 0 rows q0 = Inr (rows', q') \<longrightarrow>
          (\<exists>qs. length qs = Suc (length rows) \<and> qs ! 0 = q0 \<and> qs ! length rows = q'
             \<and> length rows' = length rows
             \<and> (\<forall>j<length rows. \<exists>r.
                   traverseFields hp a (subfields f) 0 (fieldPath @ [PathIndex j]) fieldSchemaPath
                     (rowOrEmpty (rows ! j)) (qs ! j) = Inr (r, qs ! Suc j)
                   \<and> rows' ! j = (if truthy (rows ! j) then r else rows ! j)))"
    using traverseRows_chain [of hp a "subfields f" fieldPath fieldSchemaPath 0]
    by simp
  have 5: "\<forall>entries q0 entries' q'.
          traverseLocaleRows hp a (subfields f) fieldPath fieldSchemaPath entries q0
            = Inr (entries', q') \<longrightarrow>
          map fst entries' = map fst entries
          \<and> (\<forall>k<length entries.
                (\<forall>rows. snd (entries ! k) = JArr rows \<longrightarrow>
                   (\<exists>rows' qa qb.
                      traverseRows hp a (subfields f) fieldPath fieldSchemaPath 0 rows qa
                        = Inr (rows', qb)
                      \<and> snd (entries' ! k) = JArr rows'))
                \<and> (\<not> isArray (snd (entries ! k)) \<longrightarrow>
                     snd (entries' ! k) = snd (entries ! k)))"
    using traverseLocaleRows_entries [of hp a "subfields f" fieldPath fieldSchemaPath]
    by blast
  from 1 2 3 4 5 show ?thesis by blast
qed

text \<open>
  An array with the rows \<open>{ summary: 'a' }\<close>, \<open>{}\<close> and \<open>null\<close>: the second row gets the
  default of the nested field, the others stay. A slot holding \<open>null\<close> becomes \<open>[]\<close>. With
  locales not flattened, the rows under \<open>en\<close> are traversed and the string under \<open>de\<close>
  stays.
\<close>

theorem array_traversal_witness:
  "ftype itemsArray = Array
   \<and> ([PathKey ''items''], [''items'']) = getFieldPaths specHelpers itemsArray [] [] 0
   \<and> beforeTraversal specHelpers exampleArgs itemsArray [PathKey ''items''] [''items'']
        (JObj [(''items'', JArr [JObj [(''summary'', JStr ''a'')], JObj [], JNull])]) []
       = Inr (False, JObj [(''items'', JArr [JObj [(''summary'', JStr ''a'')], JObj [], JNull])], [])
   \<and> promise specHelpers exampleArgs itemsArray 0 [] []
        (JObj [(''items'', JArr [JObj [(''summary'', JStr ''a'')], JObj [], JNull])]) []
       = Inr (JObj [(''items'',
               JArr [JObj [(''summary'', JStr ''a'')], JObj [(''summary'', JStr ''none'')], JNull])],
              [])
   \<and> promise specHelpers exampleArgs itemsArray 0 [] [] (JObj [(''items'', JNull)]) []
       = Inr (JObj [(''items'', JArr [])], [])
   \<and> promise specHelpers (exampleArgs \<lparr> flattenLocales := False \<rparr>) itemsArray 0 [] []
        (JObj [(''items'', JObj [(''en'', JArr [JObj []]), (''de'', JStr ''x'')])]) []
       = Inr (JObj [(''items'',
               JObj [(''en'', JArr [JObj [(''summary'', JStr ''none'')]]), (''de'', JStr ''x'')])],
              [])"
proof -
  have t: "ftype itemsArray = Array"
    by (simp add: itemsArray_def)
  have p: "([PathKey ''items''], [''items'']) = getFieldPaths specHelpers itemsArray [] [] 0"
    by (simp add: itemsArray_def specHelpers_def)
  have b: "beforeTraversal specHelpers exampleArgs itemsArray [PathKey ''items''] [''items'']
        (JObj [(''items'', JArr [JObj [(''summary'', JStr ''a'')], JObj [], JNull])]) []
       = Inr (False, JObj [(''items'', JArr [JObj [(''summary'', JStr ''a'')], JObj [], JNull])], [])"
    by (simp add: itemsArray_def example_defs)
  from array_traversal [OF t p b]
  have "promise specHelpers exampleArgs itemsArray 0 [] []
        (JObj [(''items'', JArr [JObj [(''summary'', JStr ''a'')], JObj [], JNull])]) []
       = (case traverseRows specHelpers exampleArgs (subfields itemsArray) [PathKey ''items'']
                 [''items''] 0 [JObj [(''summary'', JStr ''a'')], JObj [], JNull] [] of
             Inl e \<Rightarrow> Inl e
           | Inr (rows', q') \<Rightarrow>
               Inr (JObj (update_entry (field_key itemsArray) (JArr rows')
                      [(''items'', JArr [JObj [(''summary'', JStr ''a'')], JObj [], JNull])]), q'))"
    by (simp add: itemsArray_def field_key_def)
  also have "\<dots> = Inr (JObj [(''items'',
               JArr [JObj [(''summary'', JStr ''a'')], JObj [(''summary'', JStr ''none'')], JNull])],
              [])"
    by (simp add: itemsArray_def example_defs)
  finally have 1: "promise specHelpers exampleArgs itemsArray 0 [] []
        (JObj [(''items'', JArr [JObj [(''summary'', JStr ''a'')], JObj [], JNull])]) []
       = Inr (JObj [(''items'',
               JArr [JObj [(''summary'', JStr ''a'')], JObj [(''summary'', JStr ''none'')], JNull])],
              [])" .
  have 2: "promise specHelpers exampleArgs itemsArray 0 [] [] (JObj [(''items'', JNull)]) []
       = Inr (JObj [(''items'', JArr [])], [])"
    by (simp add: itemsArray_def example_defs)
  have 3: "promise specHelpers (exampleArgs \<lparr> flattenLocales := False \<rparr>) itemsArray 0 [] []
        (JObj [(''items'', JObj [(''en'', JArr [JObj []]), (''de'', JStr ''x'')])]) []
       = Inr (JObj [(''items'',
               JObj [(''en'', JArr [JObj [(''summary'', JStr ''none'')]]), (''de'', JStr ''x'')])],
              [])"
    by (simp add: itemsArray_def example_defs)
  from t p b 1 2 3 show ?thesis by simp
qed

section \<open>Blocks fields\<close>

text \<open>
  Claim C6. For a field of type \<open>blocks\<close> whose container is an object when the promise
  descends (as it is whenever the promise started on an object), and whose promise
  returns: if the slot holds a sequence, the result holds a
  sequence of the same length in the slot; a row whose \<open>blockType\<close> is the slug of no
  block of the field is in the result as it was, and the population queue is the same
  before and after it (it is not traversed); a row whose \<open>blockType\<close> is the slug of a
  block is the result of traversing it with the fields of the first such block, the path
  of the field with the row's index appended and the schema path of the field. The same
  holds for the rows of every array entry of a slot that holds an object whose value was
  not hoisted; the other entries stay as they are.
\<close>

theorem unmatched_block_untouched:
  assumes "ftype f = Blocks"
    and "(fieldPath, fieldSchemaPath) = getFieldPaths hp f pp psp i"
    and "beforeTraversal hp a f fieldPath fieldSchemaPath s q = Inr (hoisted, JObj ps1, q1)"
    and "promise hp a f i pp psp s q = Inr (s', q')"
  shows
    "(\<forall>rows. prop_of (JObj ps1) (field_key f) = JArr rows \<longrightarrow>
        (\<exists>rows' qs.
           s' = JObj (update_entry (field_key f) (JArr rows') ps1)
           \<and> length rows' = length rows
           \<and> length qs = Suc (length rows) \<and> qs ! 0 = q1 \<and> qs ! length rows = q'
           \<and> (\<forall>j<length rows.
                 (find (\<lambda>b. JStr (slug b) = prop_of (rows ! j) ''blockType'') (blocks f) = None \<longrightarrow>
                    rows' ! j = rows ! j \<and> qs ! Suc j = qs ! j)
                 \<and> (\<forall>b. find (\<lambda>b. JStr (slug b) = prop_of (rows ! j) ''blockType'') (blocks f)
                          = Some b \<longrightarrow>
                    traverseFields hp a (blockFields b) 0 (fieldPath @ [PathIndex j])
                      fieldSchemaPath (rows ! j) (qs ! j) = Inr (rows' ! j, qs ! Suc j)))))
     \<and> (\<forall>entries. prop_of (JObj ps1) (field_key f) = JObj entries \<and> \<not> hoisted \<longrightarrow>
        (\<exists>entries'.
           s' = JObj (update_entry (field_key f) (JObj entries') ps1)
           \<and> map fst entries' = map fst entries
           \<and> (\<forall>k<length entries.
                 (\<forall>rows. snd (entries ! k) = JArr rows \<longrightarrow>
                    (\<exists>rows' qs.
                       snd (entries' ! k) = JArr rows'
                       \<and> length rows' = length rows \<and> length qs = Suc (length rows)
                       \<and> (\<forall>j<length rows.
                             (find (\<lambda>b. JStr (slug b) = prop_of (rows ! j) ''blockType'') (blocks f)
                                = None \<longrightarrow>
                                rows' ! j = rows ! j \<and> qs ! Suc j = qs ! j)
                             \<and> (\<forall>b. find (\<lambda>b. JStr (slug b) = prop_of (rows ! j) ''blockType'')
                                        (blocks f) = Some b \<longrightarrow>
                                traverseFields hp a (blockFields b) 0 (fieldPath @ [PathIndex j])
                                  fieldSchemaPath (rows ! j) (qs ! j)
                                  = Inr (rows' ! j, qs ! Suc j)))))
                 \<and> (\<not> isArray (snd (entries ! k)) \<longrightarrow>
                      snd (entries' ! k) = snd (entries ! k)))))"
proof (intro conjI allI impI)
  from assms(2) have p: "fst (getFieldPaths hp f pp psp i) = fieldPath"
    "snd (getFieldPaths hp f pp psp i) = fieldSchemaPath"
    by (metis fst_conv, metis snd_conv)
  have g: "get_prop (JObj ps1) (field_key f) = Inr (prop_of (JObj ps1) (field_key f))"
    by (rule get_prop_JObj)
  {
    fix rows assume r: "prop_of (JObj ps1) (field_key f) = JArr rows"
    with assms(1,3,4) p g obtain rows' where
      t: "traverseBlockRows hp a (blocks f) fieldPath fieldSchemaPath 0 rows q1 = Inr (rows', q')"
      and s: "s' = JObj (update_entry (field_key f) (JArr rows') ps1)"
      by (auto simp add: Let_def simp del: prop_of.simps split: sum.splits)
    from traverseBlockRows_chain [OF t] s
    show "\<exists>rows' qs.
           s' = JObj (update_entry (field_key f) (JArr rows') ps1)
           \<and> length rows' = length rows
           \<and> length qs = Suc (length rows) \<and> qs ! 0 = q1 \<and> qs ! length rows = q'
           \<and> (\<forall>j<length rows.
                 (find (\<lambda>b. JStr (slug b) = prop_of (rows ! j) ''blockType'') (blocks f) = None \<longrightarrow>
                    rows' ! j = rows ! j \<and> qs ! Suc j = qs ! j)
                 \<and> (\<forall>b. find (\<lambda>b. JStr (slug b) = prop_of (rows ! j) ''blockType'') (blocks f)
                          = Some b \<longrightarrow>
                    traverseFields hp a (blockFields b) 0 (fieldPath @ [PathIndex j])
                      fieldSchemaPath (rows ! j) (qs ! j) = Inr (rows' ! j, qs ! Suc j)))"
      by (simp del: prop_of.simps) blast
  }
  {
    fix entries assume r: "prop_of (JObj ps1) (field_key f) = JObj entries \<and> \<not> hoisted"
    with assms(1,3,4) p g obtain entries' where
      t: "traverseLocaleBlockRows hp a (blocks f) fieldPath fieldSchemaPath entries q1
            = Inr (entries', q')"
      and s: "s' = JObj (update_entry (field_key f) (JObj entries') ps1)"
      by (auto simp add: Let_def simp del: prop_of.simps split: sum.splits)
    from traverseLocaleBlockRows_entries [OF t] have
      m: "map fst entries' = map fst entries"
      and e: "\<forall>k<length entries.
         (\<forall>rows. snd (entries ! k) = JArr rows \<longrightarrow>
            (\<exists>rows' qa qb.
               traverseBlockRows hp a (blocks f) fieldPath fieldSchemaPath 0 rows qa = Inr (rows', qb)
               \<and> snd (entries' ! k) = JArr rows'))
         \<and> (\<not> isArray (snd (entries ! k)) \<longrightarrow> snd (entries' ! k) = snd (entries ! k))"
      by blast+
    have "\<forall>k<length entries.
                 (\<forall>rows. snd (entries ! k) = JArr rows \<longrightarrow>
                    (\<exists>rows' qs.
                       snd (entries' ! k) = JArr rows'
                       \<and> length rows' = length rows \<and> length qs = Suc (length rows)
                       \<and> (\<forall>j<length rows.
                             (find (\<lambda>b. JStr (slug b) = prop_of (rows ! j) ''blockType'') (blocks f)
                                = None \<longrightarrow>
                                rows' ! j = rows ! j \<and> qs ! Suc j = qs ! j)
                             \<and> (\<forall>b. find (\<lambda>b. JStr (slug b) = prop_of (rows ! j) ''blockType'')
                                        (blocks f) = Some b \<longrightarrow>
                                traverseFields hp a (blockFields b) 0 (fieldPath @ [PathIndex j])
                                  fieldSchemaPath (rows ! j) (qs ! j)
                                  = Inr (rows' ! j, qs ! Suc j)))))
                 \<and> (\<not> isArray (snd (entries ! k)) \<longrightarrow>
                      snd (entries' ! k) = snd (entries ! k))"
    proof (intro allI impI conjI)
      fix k rows assume "k < length entries" and "snd (entries ! k) = JArr rows"
      with e obtain rows' qa qb where
        x: "traverseBlockRows hp a (blocks f) fieldPath fieldSchemaPath 0 rows qa = Inr (rows', qb)"
        and y: "snd (entries' ! k) = JArr rows'"
        by blast
      from traverseBlockRows_chain [OF x] y
      show "\<exists>rows' qs.
                       snd (entries' ! k) = JArr rows'
                       \<and> length rows' = length rows \<and> length qs = Suc (length rows)
                       \<and> (\<forall>j<length rows.
                             (find (\<lambda>b. JStr (slug b) = prop_of (rows ! j) ''blockType'') (blocks f)
                                = None \<longrightarrow>
                                rows' ! j = rows ! j \<and> qs ! Suc j = qs ! j)
                             \<and> (\<forall>b. find (\<lambda>b. JStr (slug b) = prop_of (rows ! j) ''blockType'')
                                        (blocks f) = Some b \<longrightarrow>
                                traverseFields hp a (blockFields b) 0 (fieldPath @ [PathIndex j])
                                  fieldSchemaPath (rows ! j) (qs ! j)
                                  = Inr (rows' ! j, qs ! Suc j)))"
        by (simp del: prop_of.simps) blast
    next
      fix k assume "k < length entries" and "\<not> isArray (snd (entries ! k))"
      with e show "snd (entries' ! k) = snd (entries ! k)" by blast
    qed
    with s m show "\<exists>entries'.
           s' = JObj (update_entry (field_key f) (JObj entries') ps1)
           \<and> map fst entries' = map fst entries
           \<and> (\<forall>k<length entries.
                 (\<forall>rows. snd (entries ! k) = JArr rows \<longrightarrow>
                    (\<exists>rows' qs.
                       snd (entries' ! k) = JArr rows'
                       \<and> length rows' = length rows \<and> length qs = Suc (length rows)
                       \<and> (\<forall>j<length rows.
                             (find (\<lambda>b. JStr (slug b) = prop_of (rows ! j) ''blockType'') (blocks f)
                                = None \<longrightarrow>
                                rows' ! j = rows ! j \<and> qs ! Suc j = qs ! j)
                             \<and> (\<forall>b. find (\<lambda>b. JStr (slug b) = prop_of (rows ! j) ''blockType'')
                                        (blocks f) = Some b \<longrightarrow>
                                traverseFields hp a (blockFields b) 0 (fieldPath @ [PathIndex j])
                                  fieldSchemaPath (rows ! j) (qs ! j)
                                  = Inr (rows' ! j, qs ! Suc j)))))
                 \<and> (\<not> isArray (snd (entries ! k)) \<longrightarrow>
                      snd (entries' ! k) = snd (entries ! k)))"
      by blast
  }
qed

text \<open>
  Two rows, \<open>hero\<close> and \<open>unknown\<close>: the first gets the default of the block's field, the
  second is in the result as it was.
\<close>

theorem unmatched_block_untouched_witness:
  "ftype layoutBlocks = Blocks
   \<and> ([PathKey ''layout''], [''layout'']) = getFieldPaths specHelpers layoutBlocks [] [] 0
   \<and> beforeTraversal specHelpers exampleArgs layoutBlocks [PathKey ''layout''] [''layout'']
        (JObj [(''layout'', JArr [JObj [(''blockType'', JStr ''hero'')],
                                  JObj [(''blockType'', JStr ''unknown''), (''x'', JNum 1)]])]) []
       = Inr (False,
              JObj [(''layout'', JArr [JObj [(''blockType'', JStr ''hero'')],
                                       JObj [(''blockType'', JStr ''unknown''), (''x'', JNum 1)]])],
              [])
   \<and> promise specHelpers exampleArgs layoutBlocks 0 [] []
        (JObj [(''layout'', JArr [JObj [(''blockType'', JStr ''hero'')],
                                  JObj [(''blockType'', JStr ''unknown''), (''x'', JNum 1)]])]) []
       = Inr (JObj [(''layout'',
                JArr [JObj [(''blockType'', JStr ''hero''), (''summary'', JStr ''none'')],
                      JObj [(''blockType'', JStr ''unknown''), (''x'', JNum 1)]])],
              [])
   \<and> find (\<lambda>b. JStr (slug b)
               = prop_of (JObj [(''blockType'', JStr ''unknown''), (''x'', JNum 1)]) ''blockType'')
        (blocks layoutBlocks) = None
   \<and> (\<exists>rows'.
         JObj [(''layout'',
                JArr [JObj [(''blockType'', JStr ''hero''), (''summary'', JStr ''none'')],
                      JObj [(''blockType'', JStr ''unknown''), (''x'', JNum 1)]])]
           = JObj (update_entry (field_key layoutBlocks) (JArr rows')
               [(''layout'', JArr [JObj [(''blockType'', JStr ''hero'')],
                                   JObj [(''blockType'', JStr ''unknown''), (''x'', JNum 1)]])])
         \<and> rows' ! 1 = JObj [(''blockType'', JStr ''unknown''), (''x'', JNum 1)])"
proof -
  let ?rows = "[JObj [(''blockType'', JStr ''hero'')],
                JObj [(''blockType'', JStr ''unknown''), (''x'', JNum 1)]]"
  let ?ps = "[(''layout'', JArr ?rows)]"
  let ?out = "JObj [(''layout'',
                JArr [JObj [(''blockType'', JStr ''hero''), (''summary'', JStr ''none'')],
                      JObj [(''blockType'', JStr ''unknown''), (''x'', JNum 1)]])]"
  have t: "ftype layoutBlocks = Blocks"
    by (simp add: layoutBlocks_def)
  have p: "([PathKey ''layout''], [''layout'']) = getFieldPaths specHelpers layoutBlocks [] [] 0"
    by (simp add: layoutBlocks_def specHelpers_def)
  have b: "beforeTraversal specHelpers exampleArgs layoutBlocks [PathKey ''layout''] [''layout'']
        (JObj ?ps) [] = Inr (False, JObj ?ps, [])"
    by (simp add: layoutBlocks_def example_defs)
  have r: "promise specHelpers exampleArgs layoutBlocks 0 [] [] (JObj ?ps) [] = Inr (?out, [])"
    by (simp add: layoutBlocks_def example_defs)
  have u: "find (\<lambda>b. JStr (slug b)
               = prop_of (JObj [(''blockType'', JStr ''unknown''), (''x'', JNum 1)]) ''blockType'')
        (blocks layoutBlocks) = None"
    by (simp add: layoutBlocks_def)
  have g: "prop_of (JObj ?ps) (field_key layoutBlocks) = JArr ?rows"
    by (simp add: layoutBlocks_def field_key_def)
  from unmatched_block_untouched [OF t p b r] g
  obtain rows' qs where
    1: "?out = JObj (update_entry (field_key layoutBlocks) (JArr rows') ?ps)"
    and 2: "\<forall>j<length ?rows.
              (find (\<lambda>b. JStr (slug b) = prop_of (?rows ! j) ''blockType'') (blocks layoutBlocks)
                 = None \<longrightarrow> rows' ! j = ?rows ! j \<and> qs ! Suc j = qs ! j)
              \<and> (\<forall>b. find (\<lambda>b. JStr (slug b) = prop_of (?rows ! j) ''blockType'')
                         (blocks layoutBlocks) = Some b \<longrightarrow>
                   traverseFields specHelpers exampleArgs (blockFields b) 0
                     ([PathKey ''layout''] @ [PathIndex j]) [''layout''] (?rows ! j) (qs ! j)
                     = Inr (rows' ! j, qs ! Suc j))"
    by blast
  from 2 have "find (\<lambda>b. JStr (slug b) = prop_of (?rows ! 1) ''blockType'') (blocks layoutBlocks)
                 = None \<longrightarrow> rows' ! 1 = ?rows ! 1"
    by (simp del: prop_of.simps)
  with u have 3: "rows' ! 1 = JObj [(''blockType'', JStr ''unknown''), (''x'', JNum 1)]"
    by (simp del: prop_of.simps)
  from 1 3 have "\<exists>rows'. ?out = JObj (update_entry (field_key layoutBlocks) (JArr rows') ?ps)
         \<and> rows' ! 1 = JObj [(''blockType'', JStr ''unknown''), (''x'', JNum 1)]"
    by blast
  with t p b r u show ?thesis
    by (simp del: prop_of.simps)
qed

end
